theory Spec2Isabelle
  imports Complex_Main "HOL-Library.Word" "HOL-Library.Sublist"
begin

section \<open>JavaScript strings\<close>

text \<open>
  A JavaScript string is a sequence of UTF-16 code units and \<open>length\<close> counts code
  units, so a string is modelled as a list of 16-bit words. The bullet glyph U+2022 of
  the list branch is a single code unit. \<open>js\<close> embeds an ASCII literal.
\<close>

type_synonym jschar = "16 word"
type_synonym jsstring = "jschar list"

definition js :: "string \<Rightarrow> jsstring" where
  "js s = map of_char s"

definition nl :: jschar where
  "nl = 0x0A"

definition bullet :: jschar where
  "bullet = 0x2022"

text \<open>
  The line terminators of ECMAScript: LF, CR, LS and PS. In a regular expression
  without the \<open>s\<close> flag the dot matches every code unit except these.
\<close>

definition is_line_terminator :: "jschar \<Rightarrow> bool" where
  "is_line_terminator c = (c = 0x0A \<or> c = 0x0D \<or> c = 0x2028 \<or> c = 0x2029)"

text \<open>
  The class \<open>\s\<close> and the code units removed by \<open>String.prototype.trim\<close> are the
  same set: WhiteSpace (TAB, VT, FF, SP, NBSP, ZWNBSP and the space separators) together
  with the line terminators.
\<close>

definition is_space :: "jschar \<Rightarrow> bool" where
  "is_space c =
     (c = 0x09 \<or> c = 0x0A \<or> c = 0x0B \<or> c = 0x0C \<or> c = 0x0D \<or> c = 0x20 \<or> c = 0xA0
      \<or> c = 0x1680 \<or> (0x2000 \<le> c \<and> c \<le> 0x200A) \<or> c = 0x2028 \<or> c = 0x2029
      \<or> c = 0x202F \<or> c = 0x205F \<or> c = 0x3000 \<or> c = 0xFEFF)"

definition is_digit :: "jschar \<Rightarrow> bool" where
  "is_digit c = (0x30 \<le> c \<and> c \<le> 0x39)"

definition trim :: "jsstring \<Rightarrow> jsstring" where
  "trim s = rev (dropWhile is_space (rev (dropWhile is_space s)))"


section \<open>Regular expressions of the classifier\<close>

text \<open>
  The ten literals of \<open>markdownPatterns\<close> use single code units, character classes,
  quantified character classes, the anchors \<open>^\<close> and \<open>$\<close> (always under the \<open>m\<close>
  flag), concatenation and one alternation. \<open>Rep n P\<close> is a class repeated at least
  \<open>n\<close> times: \<open>*\<close> is \<open>Rep 0\<close>, \<open>+\<close> is \<open>Rep 1\<close>, \<open>{3,}\<close> is \<open>Rep 3\<close>. A lazy quantifier
  (\<open>*?\<close>, \<open>+?\<close>) changes which match a backtracking matcher reports first, not whether
  one exists, and \<open>RegExp.prototype.test\<close> only reports existence; none of the literals
  carries the \<open>g\<close> or \<open>y\<close> flag, so \<open>test\<close> keeps no position between calls.
\<close>

datatype rx =
    Chr jschar
  | Cls "jschar \<Rightarrow> bool"
  | Rep nat "jschar \<Rightarrow> bool"
  | Bol
  | Eol
  | Cat rx rx
  | Alt rx rx

text \<open>
  A position in the subject is the code unit just before it (\<open>None\<close> at the start of
  the input) and the rest of the input.
\<close>

type_synonym pos = "jschar option \<times> jsstring"

fun rep :: "nat \<Rightarrow> (jschar \<Rightarrow> bool) \<Rightarrow> jschar option \<Rightarrow> jsstring \<Rightarrow> pos list" where
  "rep n P p [] = (if n = 0 then [(p, [])] else [])"
| "rep n P p (x # xs) =
     (if n = 0 then [(p, x # xs)] else []) @ (if P x then rep (n - 1) P (Some x) xs else [])"

fun at_bol :: "jschar option \<Rightarrow> bool" where
  "at_bol None = True"
| "at_bol (Some c) = is_line_terminator c"

fun at_eol :: "jsstring \<Rightarrow> bool" where
  "at_eol [] = True"
| "at_eol (x # xs) = is_line_terminator x"

text \<open>\<open>step r (p, s)\<close> lists the positions at which a match of \<open>r\<close> begun here can end.\<close>

fun step :: "rx \<Rightarrow> pos \<Rightarrow> pos list" where
  "step (Chr c) (p, s) = (case s of [] \<Rightarrow> [] | x # xs \<Rightarrow> if x = c then [(Some x, xs)] else [])"
| "step (Cls P) (p, s) = (case s of [] \<Rightarrow> [] | x # xs \<Rightarrow> if P x then [(Some x, xs)] else [])"
| "step (Rep n P) (p, s) = rep n P p s"
| "step Bol (p, s) = (if at_bol p then [(p, s)] else [])"
| "step Eol (p, s) = (if at_eol s then [(p, s)] else [])"
| "step (Cat a b) (p, s) = concat (map (step b) (step a (p, s)))"
| "step (Alt a b) (p, s) = step a (p, s) @ step b (p, s)"

text \<open>An unanchored search: a match may begin at every position, the end included.\<close>

fun search :: "rx \<Rightarrow> jschar option \<Rightarrow> jsstring \<Rightarrow> bool" where
  "search r p [] = (step r (p, []) \<noteq> [])"
| "search r p (x # xs) = (step r (p, x # xs) \<noteq> [] \<or> search r (Some x) xs)"

definition test :: "rx \<Rightarrow> jsstring \<Rightarrow> bool" where
  "test r content = search r None content"

fun seq :: "rx list \<Rightarrow> rx" where
  "seq [] = Rep 0 (\<lambda>c. False)"
| "seq [r] = r"
| "seq (r # rs) = Cat r (seq rs)"

definition dot :: "jschar \<Rightarrow> bool" where
  "dot c = (\<not> is_line_terminator c)"

definition one_of :: "string \<Rightarrow> jschar \<Rightarrow> bool" where
  "one_of cs c = (c \<in> set (js cs))"

definition lit :: "char \<Rightarrow> rx" where
  "lit c = Chr (of_char c)"


section \<open>Content classifier: \<open>isMarkdownContent\<close>\<close>

definition headers :: rx where \<comment> \<open>\<^verbatim>\<open>/#\s.+/m\<close>\<close>
  "headers = seq [lit CHR ''#'', Cls is_space, Rep 1 dot]"

definition lists :: rx where \<comment> \<open>\<^verbatim>\<open>/^[-*+]\s.+/m\<close>\<close>
  "lists = seq [Bol, Cls (one_of ''-*+''), Cls is_space, Rep 1 dot]"

definition numberedLists :: rx where \<comment> \<open>\<^verbatim>\<open>/^\d+\.\s.+/m\<close>\<close>
  "numberedLists = seq [Bol, Rep 1 is_digit, lit CHR ''.'', Cls is_space, Rep 1 dot]"

definition codeBlocks :: rx where \<comment> \<open>\<^verbatim>\<open>/```[\s\S]*?```/\<close>\<close>
  "codeBlocks = seq [lit CHR 0x60, lit CHR 0x60, lit CHR 0x60, Rep 0 (\<lambda>c. True),
                     lit CHR 0x60, lit CHR 0x60, lit CHR 0x60]"

definition inlineCode :: rx where \<comment> \<open>\<^verbatim>\<open>/`[^`]+`/\<close>\<close>
  "inlineCode = seq [lit CHR 0x60, Rep 1 (\<lambda>c. c \<noteq> of_char (CHR 0x60)), lit CHR 0x60]"

definition emphasis :: rx where \<comment> \<open>\<^verbatim>\<open>/(\*\*|\*|__|_)/\<close>\<close>
  "emphasis = Alt (seq [lit CHR ''*'', lit CHR ''*''])
             (Alt (lit CHR ''*'')
             (Alt (seq [lit CHR ''_'', lit CHR ''_''])
                  (lit CHR ''_'')))"

definition links :: rx where \<comment> \<open>\<^verbatim>\<open>/\[.+?\]\(.+?\)/\<close>\<close>
  "links = seq [lit CHR ''['', Rep 1 dot, lit CHR '']'', lit CHR ''('', Rep 1 dot, lit CHR '')'']"

definition blockquotes :: rx where \<comment> \<open>\<^verbatim>\<open>/^>\s.+/m\<close>\<close>
  "blockquotes = seq [Bol, lit CHR ''>'', Cls is_space, Rep 1 dot]"

definition tables :: rx where \<comment> \<open>\<^verbatim>\<open>/\|.+\|/\<close>\<close>
  "tables = seq [lit CHR ''|'', Rep 1 dot, lit CHR ''|'']"

definition horizontalRules :: rx where \<comment> \<open>\<^verbatim>\<open>/^[-*_]{3,}$/m\<close>\<close>
  "horizontalRules = seq [Bol, Rep 3 (one_of ''-*_''), Eol]"

definition markdownPatterns :: "(string \<times> rx) list" where
  "markdownPatterns =
     [(''headers'', headers), (''lists'', lists), (''numberedLists'', numberedLists),
      (''codeBlocks'', codeBlocks), (''inlineCode'', inlineCode), (''emphasis'', emphasis),
      (''links'', links), (''blockquotes'', blockquotes), (''tables'', tables),
      (''horizontalRules'', horizontalRules)]"

definition matchedPatterns :: "jsstring \<Rightarrow> (string \<times> rx) list" where
  "matchedPatterns content = filter (\<lambda>(name, pattern). test pattern content) markdownPatterns"

definition hasImportantPatterns :: "jsstring \<Rightarrow> bool" where
  "hasImportantPatterns content =
     (test headers content \<or> test lists content \<or> test emphasis content)"

definition isMarkdownContent :: "jsstring \<Rightarrow> bool" where
  "isMarkdownContent content =
     (length (matchedPatterns content) \<ge> 2 \<or> hasImportantPatterns content)"


section \<open>Parsed documents and the DOM library\<close>

text \<open>
  The HTML text is parsed by the \<open>DOMParser\<close> of the \<open>xmldom\<close> package, an external
  library. A parsed node is an element (node type 1) with its tag name and child nodes,
  a text node, or another node (comment, processing instruction) whose data is not part
  of an element's text content. A document is known by its child nodes.
\<close>

datatype node =
    Element string "node list"
  | TextNode jsstring
  | OtherNode jsstring

datatype dom_document = DomDocument "node list"

fun is_element :: "node \<Rightarrow> bool" where
  "is_element (Element t cs) = True"
| "is_element n = False"

fun is_other :: "node \<Rightarrow> bool" where
  "is_other (OtherNode d) = True"
| "is_other n = False"

fun tagName :: "node \<Rightarrow> string" where
  "tagName (Element t cs) = t"
| "tagName n = []"

fun childNodes :: "node \<Rightarrow> node list" where
  "childNodes (Element t cs) = cs"
| "childNodes n = []"

fun textContent :: "node \<Rightarrow> jsstring" where
  "textContent (Element t cs) = concat (map textContent (filter (\<lambda>c. \<not> is_other c) cs))"
| "textContent (TextNode d) = d"
| "textContent (OtherNode d) = d"

text \<open>
  Reading a property of \<open>undefined\<close>, calling a property that is not a function and
  passing \<open>undefined\<close> to \<open>Array.from\<close> throw a \<open>TypeError\<close>. A function that throws
  leaves the builder as it was at the throw.
\<close>

datatype js_error = TypeError

datatype completion = Normal | Throw js_error

text \<open>
  What the transformer asks of the library beyond the tree itself: the \<open>body\<close> property
  of a document (\<open>None\<close> when the property is undefined), the \<open>children\<close> property of an
  element, and \<open>forEach\<close> on the list \<open>childNodes\<close>. The document of \<open>xmldom\<close> has
  \<open>documentElement\<close>, \<open>childNodes\<close> and \<open>getElementsByTagName\<close> and no \<open>body\<close>; its
  elements have \<open>childNodes\<close> and no \<open>children\<close>; its node list has \<open>length\<close> and
  \<open>item\<close> and no \<open>forEach\<close>. \<open>dom_with_body\<close> is a library with the standard HTML
  interface (a browser, \<open>jsdom\<close>) whose document has the given body element.
\<close>

record dom_api =
  doc_body :: "dom_document \<Rightarrow> node option"
  has_children :: bool
  has_forEach :: bool

definition xmldom :: dom_api where
  "xmldom = \<lparr>doc_body = (\<lambda>doc. None), has_children = False, has_forEach = False\<rparr>"

definition dom_with_body :: "node \<Rightarrow> dom_api" where
  "dom_with_body b = \<lparr>doc_body = (\<lambda>doc. Some b), has_children = True, has_forEach = True\<rparr>"

definition children :: "dom_api \<Rightarrow> node \<Rightarrow> node list option" where
  "children api n = (if has_children api then Some (filter is_element (childNodes n)) else None)"


section \<open>Structure transformer with the recursive walk\<close>

text \<open>
  The style objects are passed through to the remote API unchanged. The literal
  \<open>0.95\<close> of the colour components is kept as the rational it denotes. Every style
  update is sent with \<open>fields: '*'\<close>, which is left out.
\<close>

datatype json =
    JString string
  | JNumber rat
  | JBool bool
  | JObject "(string \<times> json) list"

type_synonym style = "(string \<times> json) list"

definition pt :: "rat \<Rightarrow> json" where
  "pt m = JObject [(''magnitude'', JNumber m), (''unit'', JString ''PT'')]"

definition grey :: "rat \<Rightarrow> json" where
  "grey v = JObject [(''color'', JObject [(''rgbColor'',
     JObject [(''red'', JNumber v), (''green'', JNumber v), (''blue'', JNumber v)])])]"

datatype request =
    InsertText nat jsstring
  | UpdateTextStyle nat nat style
  | UpdateParagraphStyle nat nat style

record builder =
  requests :: "request list"
  currentIndex :: nat

definition addRequest :: "request \<Rightarrow> builder \<Rightarrow> builder" where
  "addRequest request b = b\<lparr>requests := requests b @ [request]\<rparr>"

definition addText :: "jsstring \<Rightarrow> style \<Rightarrow> builder \<Rightarrow> builder" where
  "addText text style b =
     (if trim text = [] then b
      else
        let b1 = addRequest (InsertText (currentIndex b) (text @ [nl])) b;
            b2 = (if length style > 0
                  then addRequest (UpdateParagraphStyle (currentIndex b1)
                                     (currentIndex b1 + length text) style) b1
                  else b1)
        in b2\<lparr>currentIndex := currentIndex b2 + length text + 1\<rparr>)"

definition h1_style :: style where
  "h1_style = [(''namedStyleType'', JString ''HEADING_1''),
               (''spaceAbove'', pt 20), (''spaceBelow'', pt 10)]"

definition h2_style :: style where
  "h2_style = [(''namedStyleType'', JString ''HEADING_2''),
               (''spaceAbove'', pt 16), (''spaceBelow'', pt 8)]"

definition p_style :: style where
  "p_style = [(''namedStyleType'', JString ''NORMAL_TEXT''),
              (''spaceAbove'', pt 8), (''spaceBelow'', pt 8)]"

definition pre_style :: style where
  "pre_style = [(''namedStyleType'', JString ''NORMAL_TEXT''),
                (''backgroundColor'', grey 0.95),
                (''spaceAbove'', pt 12), (''spaceBelow'', pt 12)]"

definition li_style :: style where
  "li_style = [(''namedStyleType'', JString ''NORMAL_TEXT''),
               (''indentStart'', pt 36),
               (''spaceAbove'', pt 4), (''spaceBelow'', pt 4)]"

definition blockquote_style :: style where
  "blockquote_style = [(''namedStyleType'', JString ''NORMAL_TEXT''),
                       (''indentStart'', pt 48),
                       (''spaceAbove'', pt 12), (''spaceBelow'', pt 12),
                       (''borderLeft'', JObject [(''color'', grey 0.8),
                          (''width'', pt 3), (''padding'', pt 12)])]"

text \<open>The decimal digits of a number, as a template literal prints an index.\<close>

definition digit :: "nat \<Rightarrow> char" where
  "digit d = ''0123456789'' ! d"

fun decimal :: "nat \<Rightarrow> string" where
  "decimal n =
     (if n < 10 then [digit n]
      else decimal (n div 10) @ [digit (n mod 10)])"

declare decimal.simps [simp del]

definition prefix_of :: "string \<Rightarrow> nat \<Rightarrow> jsstring" where
  "prefix_of tag index =
     (if tag = ''UL'' then [bullet, 0x20] else js (decimal (index + 1)) @ js ''. '')"

text \<open>
  \<open>processElement\<close>: the \<open>switch\<close> on the tag name has no default branch. In the list
  branch \<open>Array.from(element.children)\<close> throws when the element has no \<open>children\<close>
  property.
\<close>

definition processElement :: "dom_api \<Rightarrow> node \<Rightarrow> builder \<Rightarrow> completion \<times> builder" where
  "processElement api element b =
     (if tagName element = ''H1'' then (Normal, addText (textContent element) h1_style b)
      else if tagName element = ''H2'' then (Normal, addText (textContent element) h2_style b)
      else if tagName element = ''P'' then (Normal, addText (textContent element) p_style b)
      else if tagName element = ''PRE'' then (Normal, addText (textContent element) pre_style b)
      else if tagName element = ''UL'' \<or> tagName element = ''OL'' then
        (case children api element of
           None \<Rightarrow> (Throw TypeError, b)
         | Some items \<Rightarrow>
             (Normal,
              fold (\<lambda>(index, li).
                      addText (prefix_of (tagName element) index @ textContent li) li_style)
                (enumerate 0 items) b))
      else if tagName element = ''BLOCKQUOTE'' then
        (Normal, addText (textContent element) blockquote_style b)
      else (Normal, b))"

text \<open>
  \<open>walkDOM\<close>: \<open>walkNode\<close> is its body for a node that is an object, \<open>walkChildNodes\<close> the
  callback of \<open>node.childNodes.forEach\<close> applied to the child nodes in order; a throw
  in a callback ends the iteration. On \<open>undefined\<close> the test \<open>node.nodeType === 1\<close>
  throws.
\<close>

fun walkNode :: "dom_api \<Rightarrow> node \<Rightarrow> builder \<Rightarrow> completion \<times> builder"
  and walkChildNodes :: "dom_api \<Rightarrow> node list \<Rightarrow> builder \<Rightarrow> completion \<times> builder" where
  "walkNode api (Element t cs) b =
     (case processElement api (Element t cs) b of
        (Throw e, b1) \<Rightarrow> (Throw e, b1)
      | (Normal, b1) \<Rightarrow>
          if has_forEach api then walkChildNodes api cs b1 else (Throw TypeError, b1))"
| "walkNode api (TextNode d) b = (if has_forEach api then (Normal, b) else (Throw TypeError, b))"
| "walkNode api (OtherNode d) b = (if has_forEach api then (Normal, b) else (Throw TypeError, b))"
| "walkChildNodes api [] b = (Normal, b)"
| "walkChildNodes api (child # rest) b =
     (if is_element child \<and> tagName child \<notin> set [''SCRIPT'', ''STYLE'']
      then (case walkNode api child b of
              (Throw e, b1) \<Rightarrow> (Throw e, b1)
            | (Normal, b1) \<Rightarrow> walkChildNodes api rest b1)
      else walkChildNodes api rest b)"

definition walkDOM :: "dom_api \<Rightarrow> node option \<Rightarrow> builder \<Rightarrow> completion \<times> builder" where
  "walkDOM api node b =
     (case node of None \<Rightarrow> (Throw TypeError, b) | Some n \<Rightarrow> walkNode api n b)"

definition start :: builder where
  "start = \<lparr>requests = [], currentIndex = 1\<rparr>"

text \<open>
  \<open>htmlToGoogleDocsStructure\<close> of the multi-route server. \<open>parse\<close> is
  \<open>parseFromString\<close>; it yields \<open>None\<close> when the library hands back no document, and
  reading \<open>doc.body\<close> then throws. The requests are returned only when the walk
  completes.
\<close>

definition htmlToGoogleDocsStructure ::
  "dom_api \<Rightarrow> (jsstring \<Rightarrow> dom_document option) \<Rightarrow> jsstring \<Rightarrow> js_error + request list" where
  "htmlToGoogleDocsStructure api parse htmlContent =
     (case parse htmlContent of
        None \<Rightarrow> Inl TypeError
      | Some doc \<Rightarrow>
          (case walkDOM api (doc_body api doc) start of
             (Throw e, b) \<Rightarrow> Inl e
           | (Normal, b) \<Rightarrow> Inr (requests b)))"


section \<open>Structure transformer of \<open>index.js\<close>\<close>

text \<open>
  The variant in \<open>index.js\<close> collects the elements by tag name, which \<open>xmldom\<close> supports:
  \<open>getElementsByTagName\<close> lists the descendants of its base node in document order
  whose tag name is the given one. The bullet prefix of this file is the four code
  units its source text holds.
\<close>

fun subtree :: "node \<Rightarrow> node list" where
  "subtree (Element t cs) = Element t cs # concat (map subtree cs)"
| "subtree (TextNode d) = [TextNode d]"
| "subtree (OtherNode d) = [OtherNode d]"

definition getElementsByTagName :: "string \<Rightarrow> node list \<Rightarrow> node list" where
  "getElementsByTagName name base_children =
     filter (\<lambda>n. is_element n \<and> tagName n = name) (concat (map subtree base_children))"

definition addFormattedText :: "jsstring \<Rightarrow> style \<Rightarrow> style \<Rightarrow> builder \<Rightarrow> builder" where
  "addFormattedText text textStyle paragraphStyle b =
     (if text = [] \<or> trim text = [] then b
      else
        let b1 = addRequest (InsertText (currentIndex b) (text @ [nl])) b;
            b2 = (if length textStyle > 0
                  then addRequest (UpdateTextStyle (currentIndex b1)
                                     (currentIndex b1 + length text) textStyle) b1
                  else b1);
            b3 = (if length paragraphStyle > 0
                  then addRequest (UpdateParagraphStyle (currentIndex b2)
                                     (currentIndex b2 + length text) paragraphStyle) b2
                  else b2)
        in b3\<lparr>currentIndex := currentIndex b3 + length text + 1\<rparr>)"

definition heading_textStyle :: "rat \<Rightarrow> style" where
  "heading_textStyle magnitude = [(''bold'', JBool True), (''fontSize'', pt magnitude)]"

definition list_paragraphStyle :: style where
  "list_paragraphStyle = [(''namedStyleType'', JString ''NORMAL_TEXT''),
                          (''indentStart'', pt 36), (''indentFirstLine'', pt 18)]"

definition pre_textStyle :: style where
  "pre_textStyle = [(''fontFamily'', JString ''Courier New''), (''backgroundColor'', grey 0.95)]"

definition pre_paragraphStyle :: style where
  "pre_paragraphStyle = [(''namedStyleType'', JString ''NORMAL_TEXT''),
                         (''spaceAbove'', pt 10), (''spaceBelow'', pt 10)]"

definition bullet_index :: jsstring where
  "bullet_index = [0xE2, 0x20AC, 0xA2, 0x20]"

definition htmlToGoogleDocsStructure_index ::
  "(jsstring \<Rightarrow> dom_document option) \<Rightarrow> jsstring \<Rightarrow> js_error + request list" where
  "htmlToGoogleDocsStructure_index parse htmlContent =
     (case parse htmlContent of
        None \<Rightarrow> Inl TypeError
      | Some (DomDocument nodes) \<Rightarrow>
          let b1 = fold (\<lambda>heading. addFormattedText (textContent heading)
                           (heading_textStyle 16) [(''namedStyleType'', JString ''HEADING_1'')])
                     (getElementsByTagName ''h1'' nodes) start;
              b2 = fold (\<lambda>heading. addFormattedText (textContent heading)
                           (heading_textStyle 14) [(''namedStyleType'', JString ''HEADING_2'')])
                     (getElementsByTagName ''h2'' nodes) b1;
              b3 = fold (\<lambda>para. addFormattedText (textContent para)
                           [] [(''namedStyleType'', JString ''NORMAL_TEXT'')])
                     (getElementsByTagName ''p'' nodes) b2;
              b4 = fold (\<lambda>list.
                           fold (\<lambda>item. addFormattedText (bullet_index @ textContent item)
                                   [] list_paragraphStyle)
                             (getElementsByTagName ''li'' (childNodes list)))
                     (getElementsByTagName ''ul'' nodes) b3;
              b5 = fold (\<lambda>pre. addFormattedText (textContent pre)
                           pre_textStyle pre_paragraphStyle)
                     (getElementsByTagName ''pre'' nodes) b4
          in Inr (requests b5))"


section \<open>Structure transformer of the earlier server\<close>

text \<open>
  The earlier server file walks the element children of the body once, without
  recursion, and its \<open>switch\<close> on the lower-cased tag name has a default branch that
  inserts the text of the element. Its \<open>addFormattedText\<close> is given the text with the
  newline, does not test for blank text, and advances the cursor by the length of what
  it inserts; its style update names the keys of the style as \<open>fields\<close>, which is left
  out. Tag names are ASCII, so folding the letters A to Z is \<open>toLowerCase\<close>.
\<close>

definition toLowerCase :: "string \<Rightarrow> string" where
  "toLowerCase s =
     map (\<lambda>c. case map_of (zip ''ABCDEFGHIJKLMNOPQRSTUVWXYZ'' ''abcdefghijklmnopqrstuvwxyz'') c of
                 None \<Rightarrow> c | Some l \<Rightarrow> l) s"

definition addFormattedText_001 :: "jsstring \<Rightarrow> style \<Rightarrow> builder \<Rightarrow> builder" where
  "addFormattedText_001 text formatting b =
     (let b1 = addRequest (InsertText (currentIndex b) text) b;
          b2 = (if length formatting > 0
                then addRequest (UpdateTextStyle (currentIndex b1)
                                   (currentIndex b1 + length text) formatting) b1
                else b1)
      in b2\<lparr>currentIndex := currentIndex b2 + length text\<rparr>)"

definition element_case_001 :: "dom_api \<Rightarrow> node \<Rightarrow> builder \<Rightarrow> completion \<times> builder" where
  "element_case_001 api element b =
     (let tag = toLowerCase (tagName element) in
      if tag = ''h1'' then
        (Normal, addFormattedText_001 (textContent element @ [nl])
                   [(''bold'', JBool True), (''fontSize'', pt 24)] b)
      else if tag = ''h2'' then
        (Normal, addFormattedText_001 (textContent element @ [nl])
                   [(''bold'', JBool True), (''fontSize'', pt 20)] b)
      else if tag = ''p'' then
        (Normal, addFormattedText_001 (textContent element @ [nl]) [] b)
      else if tag = ''ul'' then
        (case children api element of
           None \<Rightarrow> (Throw TypeError, b)
         | Some items \<Rightarrow>
             (Normal,
              fold (\<lambda>li. addFormattedText_001 (bullet_index @ textContent li @ [nl]) [])
                items b))
      else if tag = ''code'' then
        (Normal, addFormattedText_001 (textContent element @ [nl])
                   [(''backgroundColor'', grey 0.95), (''fontFamily'', JString ''Courier New'')] b)
      else (Normal, addFormattedText_001 (textContent element @ [nl]) [] b))"

fun forEach_001 :: "dom_api \<Rightarrow> node list \<Rightarrow> builder \<Rightarrow> completion \<times> builder" where
  "forEach_001 api [] b = (Normal, b)"
| "forEach_001 api (element # rest) b =
     (case element_case_001 api element b of
        (Throw e, b1) \<Rightarrow> (Throw e, b1)
      | (Normal, b1) \<Rightarrow> forEach_001 api rest b1)"

definition htmlToGoogleDocsStructure_001 ::
  "dom_api \<Rightarrow> (jsstring \<Rightarrow> dom_document option) \<Rightarrow> jsstring \<Rightarrow> js_error + request list" where
  "htmlToGoogleDocsStructure_001 api parse htmlContent =
     (case parse htmlContent of
        None \<Rightarrow> Inl TypeError
      | Some doc \<Rightarrow>
          (case doc_body api doc of
             None \<Rightarrow> Inl TypeError
           | Some body \<Rightarrow>
               (case children api body of
                  None \<Rightarrow> Inl TypeError
                | Some elements \<Rightarrow>
                    (case forEach_001 api elements start of
                       (Throw e, b) \<Rightarrow> Inl e
                     | (Normal, b) \<Rightarrow> Inr (requests b)))))"


section \<open>Batch conversion: the loops of \<open>POST /api/convert\<close>\<close>

text \<open>
  The body of a fetched document: its top-level blocks, or nothing when \<open>body\<close> or
  \<open>body.content\<close> is missing. \<open>extractDocumentContent\<close> is declared twice in the file of
  the recursive walk; the later declaration is the one in force. It joins the text runs
  of the top-level paragraphs with a newline and returns the empty string when the body
  is missing (the \<open>TypeError\<close> is caught inside). The loop of \<open>index.js\<close> extracts the
  text inline, joining the runs of a paragraph without separator and the paragraphs
  with a newline; there a missing body throws.
\<close>

datatype pelement =
    TextRun jsstring
  | NoTextRun

datatype body_section =
    Paragraph "pelement list"
  | OtherSection

datatype gdoc = GDoc "body_section list option"

fun join :: "jsstring \<Rightarrow> jsstring list \<Rightarrow> jsstring" where
  "join sep [] = []"
| "join sep [x] = x"
| "join sep (x # xs) = x @ sep @ join sep xs"

fun run_contents :: "pelement list \<Rightarrow> jsstring list" where
  "run_contents [] = []"
| "run_contents (TextRun content # es) =
     (if content \<noteq> [] then content # run_contents es else run_contents es)"
| "run_contents (NoTextRun # es) = run_contents es"

fun contentParts :: "body_section list \<Rightarrow> jsstring list" where
  "contentParts [] = []"
| "contentParts (Paragraph elements # secs) = run_contents elements @ contentParts secs"
| "contentParts (OtherSection # secs) = contentParts secs"

fun extractDocumentContent :: "gdoc \<Rightarrow> jsstring" where
  "extractDocumentContent (GDoc None) = []"
| "extractDocumentContent (GDoc (Some content)) = join [nl] (contentParts content)"

fun paragraphTexts :: "body_section list \<Rightarrow> jsstring list" where
  "paragraphTexts [] = []"
| "paragraphTexts (Paragraph elements # secs) =
     concat (run_contents elements) # paragraphTexts secs"
| "paragraphTexts (OtherSection # secs) = paragraphTexts secs"

fun rawContent :: "gdoc \<Rightarrow> js_error + jsstring" where
  "rawContent (GDoc None) = Inl TypeError"
| "rawContent (GDoc (Some content)) = Inr (join [nl] (paragraphTexts content))"

text \<open>
  The remote calls of one iteration. Each answer is what the remote service returns for
  the call the loop makes for this file: an error message when the call throws, a value
  otherwise. What a \<open>catch\<close> receives is the error of a remote call or an error thrown
  by the script itself.
\<close>

type_synonym bytes = "8 word list"

record drive_file =
  fileId :: string
  fileName :: jsstring

record answers =
  documents_get :: "string + gdoc"
  documents_create :: "jsstring \<Rightarrow> string + string"
  documents_batchUpdate :: "string \<Rightarrow> request list \<Rightarrow> string option"
  files_update :: "string \<Rightarrow> string option"
  files_export :: "string \<Rightarrow> string + bytes"

datatype thrown =
    Remote string
  | Script js_error

datatype outcome =
    Converted jsstring jsstring
  | Failed jsstring thrown

record job =
  convertedFiles :: "outcome list"
  zipFiles :: "(jsstring \<times> bytes) list"

text \<open>
  From \<open>docs.documents.create\<close> to the push of the converted entry: the same statements
  in both loops.
\<close>

definition createAndExport :: "drive_file \<Rightarrow> answers \<Rightarrow> request list \<Rightarrow> job \<Rightarrow> thrown + job" where
  "createAndExport f a reqs j =
     (case documents_create a (js ''Converted-'' @ fileName f) of
        Inl e \<Rightarrow> Inl (Remote e)
      | Inr documentId \<Rightarrow>
          (case documents_batchUpdate a documentId reqs of
             Some e \<Rightarrow> Inl (Remote e)
           | None \<Rightarrow>
               (case files_update a documentId of
                  Some e \<Rightarrow> Inl (Remote e)
                | None \<Rightarrow>
                    (case files_export a documentId of
                       Inl e \<Rightarrow> Inl (Remote e)
                     | Inr pdfBuffer \<Rightarrow>
                         Inr (j\<lparr>zipFiles := zipFiles j @ [(fileName f @ js ''.pdf'', pdfBuffer)],
                                convertedFiles := convertedFiles j @
                                  [Converted (fileName f) (fileName f @ js ''.pdf'')]\<rparr>)))))"

text \<open>
  The \<open>try\<close> block of the loop that classifies (the file of the recursive walk):
  \<open>Inl\<close> is what the first failing statement throws. \<open>marked\<close> is the external
  Markdown converter.
\<close>

definition tryFile ::
  "dom_api \<Rightarrow> (jsstring \<Rightarrow> jsstring) \<Rightarrow> (jsstring \<Rightarrow> dom_document option)
     \<Rightarrow> drive_file \<Rightarrow> answers \<Rightarrow> job \<Rightarrow> thrown + job" where
  "tryFile api marked parse f a j =
     (case documents_get a of
        Inl e \<Rightarrow> Inl (Remote e)
      | Inr docContent \<Rightarrow>
          let content = extractDocumentContent docContent in
          if isMarkdownContent content then
            (case htmlToGoogleDocsStructure api parse (marked content) of
               Inl err \<Rightarrow> Inl (Script err)
             | Inr reqs \<Rightarrow> createAndExport f a reqs j)
          else Inr j)"

definition convertFile ::
  "dom_api \<Rightarrow> (jsstring \<Rightarrow> jsstring) \<Rightarrow> (jsstring \<Rightarrow> dom_document option)
     \<Rightarrow> drive_file \<times> answers \<Rightarrow> job \<Rightarrow> job" where
  "convertFile api marked parse fa j =
     (case tryFile api marked parse (fst fa) (snd fa) j of
        Inr j' \<Rightarrow> j'
      | Inl fileError \<Rightarrow>
          j\<lparr>convertedFiles := convertedFiles j @ [Failed (fileName (fst fa)) fileError]\<rparr>)"

definition convertLoop ::
  "dom_api \<Rightarrow> (jsstring \<Rightarrow> jsstring) \<Rightarrow> (jsstring \<Rightarrow> dom_document option)
     \<Rightarrow> (drive_file \<times> answers) list \<Rightarrow> job" where
  "convertLoop api marked parse files =
     fold (convertFile api marked parse) files \<lparr>convertedFiles = [], zipFiles = []\<rparr>"

text \<open>
  The loop of \<open>index.js\<close>: a file whose lower-cased name includes \<open>converted\<close> is passed
  over by \<open>continue\<close>; every other file is converted without being classified. Only
  the letters A to Z have a lower-case form among the letters of \<open>converted\<close>, so
  folding these decides the test.
\<close>

definition lower :: "jschar \<Rightarrow> jschar" where
  "lower c = (if 0x41 \<le> c \<and> c \<le> 0x5A then c + 0x20 else c)"

fun includes_str :: "jsstring \<Rightarrow> jsstring \<Rightarrow> bool" where
  "includes_str [] sub = (sub = [])"
| "includes_str (x # xs) sub = (prefix sub (x # xs) \<or> includes_str xs sub)"

definition skipName :: "jsstring \<Rightarrow> bool" where
  "skipName name = includes_str (map lower name) (js ''converted'')"

definition tryFile_index ::
  "(jsstring \<Rightarrow> jsstring) \<Rightarrow> (jsstring \<Rightarrow> dom_document option)
     \<Rightarrow> drive_file \<Rightarrow> answers \<Rightarrow> job \<Rightarrow> thrown + job" where
  "tryFile_index marked parse f a j =
     (if skipName (fileName f) then Inr j
      else
        case documents_get a of
          Inl e \<Rightarrow> Inl (Remote e)
        | Inr docContent \<Rightarrow>
            (case rawContent docContent of
               Inl err \<Rightarrow> Inl (Script err)
             | Inr raw \<Rightarrow>
                 (case htmlToGoogleDocsStructure_index parse (marked raw) of
                    Inl err \<Rightarrow> Inl (Script err)
                  | Inr reqs \<Rightarrow> createAndExport f a reqs j)))"

definition convertFile_index ::
  "(jsstring \<Rightarrow> jsstring) \<Rightarrow> (jsstring \<Rightarrow> dom_document option)
     \<Rightarrow> drive_file \<times> answers \<Rightarrow> job \<Rightarrow> job" where
  "convertFile_index marked parse fa j =
     (case tryFile_index marked parse (fst fa) (snd fa) j of
        Inr j' \<Rightarrow> j'
      | Inl fileError \<Rightarrow>
          j\<lparr>convertedFiles := convertedFiles j @ [Failed (fileName (fst fa)) fileError]\<rparr>)"

definition convertLoop_index ::
  "(jsstring \<Rightarrow> jsstring) \<Rightarrow> (jsstring \<Rightarrow> dom_document option)
     \<Rightarrow> (drive_file \<times> answers) list \<Rightarrow> job" where
  "convertLoop_index marked parse files =
     fold (convertFile_index marked parse) files \<lparr>convertedFiles = [], zipFiles = []\<rparr>"

text \<open>
  The response of the handler: the error of the set-up (folder creation, listing) with
  status 500, or the outcomes of the loop with their number.
\<close>

datatype response =
    Ok200 nat "outcome list"
  | Error500 string

definition respond :: "job \<Rightarrow> response" where
  "respond j = Ok200 (length (convertedFiles j)) (convertedFiles j)"

definition api_convert ::
  "dom_api \<Rightarrow> (jsstring \<Rightarrow> jsstring) \<Rightarrow> (jsstring \<Rightarrow> dom_document option)
     \<Rightarrow> string + (drive_file \<times> answers) list \<Rightarrow> response" where
  "api_convert api marked parse listing =
     (case listing of
        Inl message \<Rightarrow> Error500 message
      | Inr files \<Rightarrow> respond (convertLoop api marked parse files))"

definition api_convert_index ::
  "(jsstring \<Rightarrow> jsstring) \<Rightarrow> (jsstring \<Rightarrow> dom_document option)
     \<Rightarrow> string + (drive_file \<times> answers) list \<Rightarrow> response" where
  "api_convert_index marked parse listing =
     (case listing of
        Inl message \<Rightarrow> Error500 message
      | Inr files \<Rightarrow> respond (convertLoop_index marked parse files))"


section \<open>Auxiliary notions for the statements\<close>





text \<open>
  For the loop of \<open>index.js\<close>: every statement of an iteration succeeds; the iteration
  reaches \<open>batchUpdate\<close>, which throws the given message; the entry of an iteration
  that succeeds.
\<close>

definition calls_succeed_index ::
  "(jsstring \<Rightarrow> jsstring) \<Rightarrow> (jsstring \<Rightarrow> dom_document option) \<Rightarrow> drive_file \<times> answers \<Rightarrow> bool" where
  "calls_succeed_index marked parse fa =
     (skipName (fileName (fst fa)) \<or>
      (case documents_get (snd fa) of
         Inl e \<Rightarrow> False
       | Inr docContent \<Rightarrow>
           (case rawContent docContent of
              Inl err \<Rightarrow> False
            | Inr raw \<Rightarrow>
                (case htmlToGoogleDocsStructure_index parse (marked raw) of
                   Inl err \<Rightarrow> False
                 | Inr reqs \<Rightarrow>
                     (case documents_create (snd fa) (js ''Converted-'' @ fileName (fst fa)) of
                        Inl e \<Rightarrow> False
                      | Inr documentId \<Rightarrow>
                          documents_batchUpdate (snd fa) documentId reqs = None
                          \<and> files_update (snd fa) documentId = None
                          \<and> (case files_export (snd fa) documentId of
                                Inl e \<Rightarrow> False | Inr pdf \<Rightarrow> True))))))"

definition fails_at_submit_index ::
  "(jsstring \<Rightarrow> jsstring) \<Rightarrow> (jsstring \<Rightarrow> dom_document option) \<Rightarrow> drive_file \<times> answers
     \<Rightarrow> string \<Rightarrow> bool" where
  "fails_at_submit_index marked parse fa message =
     (\<not> skipName (fileName (fst fa)) \<and>
      (case documents_get (snd fa) of
         Inl e \<Rightarrow> False
       | Inr docContent \<Rightarrow>
           (case rawContent docContent of
              Inl err \<Rightarrow> False
            | Inr raw \<Rightarrow>
                (case htmlToGoogleDocsStructure_index parse (marked raw) of
                   Inl err \<Rightarrow> False
                 | Inr reqs \<Rightarrow>
                     (case documents_create (snd fa) (js ''Converted-'' @ fileName (fst fa)) of
                        Inl e \<Rightarrow> False
                      | Inr documentId \<Rightarrow>
                          documents_batchUpdate (snd fa) documentId reqs = Some message)))))"

definition entry_index :: "drive_file \<times> answers \<Rightarrow> outcome list" where
  "entry_index fa =
     (if skipName (fileName (fst fa)) then []
      else [Converted (fileName (fst fa)) (fileName (fst fa) @ js ''.pdf'')])"

fun is_failed :: "outcome \<Rightarrow> bool" where
  "is_failed (Failed n e) = True"
| "is_failed (Converted n c) = False"

text \<open>Sample remote answers and files for concrete batches.\<close>

definition remote_ok :: "jsstring \<Rightarrow> answers" where
  "remote_ok content =
     \<lparr>documents_get = Inr (GDoc (Some [Paragraph [TextRun content]])),
      documents_create = (\<lambda>title. Inr ''doc''),
      documents_batchUpdate = (\<lambda>documentId reqs. None),
      files_update = (\<lambda>documentId. None),
      files_export = (\<lambda>documentId. Inr [])\<rparr>"

definition submit_fails :: "jsstring \<Rightarrow> string \<Rightarrow> answers" where
  "submit_fails content message =
     (remote_ok content)\<lparr>documents_batchUpdate := (\<lambda>documentId reqs. Some message)\<rparr>"

definition named :: "string \<Rightarrow> drive_file" where
  "named n = \<lparr>fileId = n, fileName = js n\<rparr>"


section \<open>Declarative reading of the patterns\<close>

text \<open>
  What a pattern matches, stated without the matcher: \<open>lang r p w t\<close> holds when \<open>r\<close>
  matches exactly the code units \<open>w\<close>, with \<open>p\<close> the code unit before \<open>w\<close> (if any) and
  \<open>t\<close> the input after it. \<open>after p w\<close> is the code unit before the position reached
  by reading \<open>w\<close>.
\<close>

abbreviation ch :: "char \<Rightarrow> jschar" where
  "ch \<equiv> of_char"

fun after :: "jschar option \<Rightarrow> jsstring \<Rightarrow> jschar option" where
  "after p [] = p"
| "after p (x # xs) = Some (last (x # xs))"

fun lang :: "rx \<Rightarrow> jschar option \<Rightarrow> jsstring \<Rightarrow> jsstring \<Rightarrow> bool" where
  "lang (Chr c) p w t = (w = [c])"
| "lang (Cls P) p w t = (\<exists>x. w = [x] \<and> P x)"
| "lang (Rep n P) p w t = (n \<le> length w \<and> list_all P w)"
| "lang Bol p w t = (w = [] \<and> at_bol p)"
| "lang Eol p w t = (w = [] \<and> at_eol t)"
| "lang (Cat a b) p w t =
     (\<exists>w1 w2. w = w1 @ w2 \<and> lang a p w1 (w2 @ t) \<and> lang b (after p w1) w2 t)"
| "lang (Alt a b) p w t = (lang a p w t \<or> lang b p w t)"

text \<open>
  The ten signals of the classifier, as conditions on the text. A line starts at the
  beginning of the input and after every line terminator; it ends at the end of the
  input and before every line terminator.
\<close>

definition line_start :: "jsstring \<Rightarrow> bool" where
  "line_start u = (u = [] \<or> is_line_terminator (last u))"

definition line_end :: "jsstring \<Rightarrow> bool" where
  "line_end v = (v = [] \<or> is_line_terminator (hd v))"

definition sig_heading :: "jsstring \<Rightarrow> bool" where
  "sig_heading s =
     (\<exists>u c d v. s = u @ ch CHR ''#'' # c # d # v \<and> is_space c \<and> \<not> is_line_terminator d)"

definition sig_bullet :: "jsstring \<Rightarrow> bool" where
  "sig_bullet s =
     (\<exists>u b c d v. s = u @ b # c # d # v \<and> line_start u
        \<and> (b = ch CHR ''-'' \<or> b = ch CHR ''*'' \<or> b = ch CHR ''+'')
        \<and> is_space c \<and> \<not> is_line_terminator d)"

definition sig_ordered :: "jsstring \<Rightarrow> bool" where
  "sig_ordered s =
     (\<exists>u ds c d v. s = u @ ds @ ch CHR ''.'' # c # d # v \<and> line_start u
        \<and> ds \<noteq> [] \<and> list_all is_digit ds \<and> is_space c \<and> \<not> is_line_terminator d)"

definition sig_fence :: "jsstring \<Rightarrow> bool" where
  "sig_fence s =
     (\<exists>u m v. s = u @ [ch (CHR 0x60), ch (CHR 0x60), ch (CHR 0x60)] @ m
                    @ [ch (CHR 0x60), ch (CHR 0x60), ch (CHR 0x60)] @ v)"

definition sig_inline :: "jsstring \<Rightarrow> bool" where
  "sig_inline s =
     (\<exists>u m v. s = u @ ch (CHR 0x60) # m @ ch (CHR 0x60) # v \<and> m \<noteq> []
        \<and> ch (CHR 0x60) \<notin> set m)"

definition sig_emphasis :: "jsstring \<Rightarrow> bool" where
  "sig_emphasis s = (ch CHR ''*'' \<in> set s \<or> ch CHR ''_'' \<in> set s)"

definition sig_link :: "jsstring \<Rightarrow> bool" where
  "sig_link s =
     (\<exists>u a b v. s = u @ ch CHR ''['' # a @ ch CHR '']'' # ch CHR ''('' # b @ ch CHR '')'' # v
        \<and> a \<noteq> [] \<and> b \<noteq> []
        \<and> list_all (\<lambda>c. \<not> is_line_terminator c) a \<and> list_all (\<lambda>c. \<not> is_line_terminator c) b)"

definition sig_quote :: "jsstring \<Rightarrow> bool" where
  "sig_quote s =
     (\<exists>u c d v. s = u @ ch CHR ''>'' # c # d # v \<and> line_start u
        \<and> is_space c \<and> \<not> is_line_terminator d)"

definition sig_table :: "jsstring \<Rightarrow> bool" where
  "sig_table s =
     (\<exists>u m v. s = u @ ch CHR ''|'' # m @ ch CHR ''|'' # v \<and> m \<noteq> []
        \<and> list_all (\<lambda>c. \<not> is_line_terminator c) m)"

definition sig_rule :: "jsstring \<Rightarrow> bool" where
  "sig_rule s =
     (\<exists>u m v. s = u @ m @ v \<and> line_start u \<and> 3 \<le> length m
        \<and> list_all (\<lambda>c. c = ch CHR ''-'' \<or> c = ch CHR ''*'' \<or> c = ch CHR ''_'') m
        \<and> line_end v)"

definition signals :: "(jsstring \<Rightarrow> bool) list" where
  "signals = [sig_heading, sig_bullet, sig_ordered, sig_fence, sig_inline, sig_emphasis,
              sig_link, sig_quote, sig_table, sig_rule]"


section \<open>The classifier as the specification words it\<close>

text \<open>
  These definitions follow the words of the specification, not the source: a heading is
  a line beginning with \<open>#\<close> followed by whitespace, a bullet list a line beginning with
  \<open>-\<close>, \<open>*\<close> or \<open>+\<close> followed by whitespace, an ordered list a line beginning with
  digits, a dot and whitespace, a fence a block between triple backticks, inline code a
  span between single backticks, emphasis any occurrence of \<open>**\<close>, \<open>*\<close>, \<open>__\<close> or
  \<open>_\<close>, a link the bracket-paren pattern, a blockquote a line beginning with \<open>>\<close>
  followed by whitespace, a table row a pipe flanked by other characters on its line, a
  horizontal rule a line of three or more \<open>-\<close>, \<open>*\<close> or \<open>_\<close>. The text is classified
  as Markdown when two signals match or an important one does; the flag says whether
  the ordered list counts as the important list signal beside the bullet list.
\<close>

definition spec_heading :: rx where
  "spec_heading = seq [Bol, lit CHR ''#'', Cls is_space]"

definition spec_bullet :: rx where
  "spec_bullet = seq [Bol, Cls (one_of ''-*+''), Cls is_space]"

definition spec_ordered :: rx where
  "spec_ordered = seq [Bol, Rep 1 is_digit, lit CHR ''.'', Cls is_space]"

definition spec_fence :: rx where
  "spec_fence = seq [lit CHR 0x60, lit CHR 0x60, lit CHR 0x60, Rep 0 (\<lambda>c. True),
                     lit CHR 0x60, lit CHR 0x60, lit CHR 0x60]"

definition spec_inline :: rx where
  "spec_inline = seq [lit CHR 0x60, Rep 0 (\<lambda>c. c \<noteq> of_char (CHR 0x60)), lit CHR 0x60]"

definition spec_emphasis :: rx where
  "spec_emphasis = Alt (seq [lit CHR ''*'', lit CHR ''*''])
                  (Alt (lit CHR ''*'')
                  (Alt (seq [lit CHR ''_'', lit CHR ''_''])
                       (lit CHR ''_'')))"

definition spec_link :: rx where
  "spec_link = seq [lit CHR ''['', Rep 0 dot, lit CHR '']'', lit CHR ''('', Rep 0 dot, lit CHR '')'']"

definition spec_quote :: rx where
  "spec_quote = seq [Bol, lit CHR ''>'', Cls is_space]"

definition spec_table :: rx where
  "spec_table = seq [Cls dot, lit CHR ''|'', Cls dot]"

definition spec_rule :: rx where
  "spec_rule = seq [Bol, Rep 3 (one_of ''-*_''), Eol]"

definition spec_signals :: "rx list" where
  "spec_signals = [spec_heading, spec_bullet, spec_ordered, spec_fence, spec_inline,
                   spec_emphasis, spec_link, spec_quote, spec_table, spec_rule]"

definition spec_classify :: "bool \<Rightarrow> jsstring \<Rightarrow> bool" where
  "spec_classify ordered_is_important text =
     (2 \<le> length (filter (\<lambda>r. test r text) spec_signals)
      \<or> test spec_heading text
      \<or> test spec_bullet text \<or> (ordered_is_important \<and> test spec_ordered text)
      \<or> test spec_emphasis text)"


section \<open>Basic facts about the transformer\<close>

lemma style_nonempty [simp]:
  "h1_style \<noteq> []" "h2_style \<noteq> []" "p_style \<noteq> []" "pre_style \<noteq> []"
  "li_style \<noteq> []" "blockquote_style \<noteq> []"
  by (simp_all add: h1_style_def h2_style_def p_style_def pre_style_def li_style_def
        blockquote_style_def)

lemma trim_empty_iff: "trim s = [] \<longleftrightarrow> (\<forall>c \<in> set s. is_space c)"
proof -
  have "trim s = [] \<longleftrightarrow> (\<forall>c \<in> set (dropWhile is_space s). is_space c)"
    by (simp add: trim_def)
  also have "\<dots> \<longleftrightarrow> (\<forall>c \<in> set s. is_space c)"
  proof
    assume a: "\<forall>c \<in> set (dropWhile is_space s). is_space c"
    show "\<forall>c \<in> set s. is_space c"
    proof (cases "dropWhile is_space s")
      case Nil
      then show ?thesis by (simp add: dropWhile_eq_Nil_conv)
    next
      case (Cons x xs)
      then have "\<not> is_space x" using hd_dropWhile[of is_space s] by simp
      moreover have "is_space x" using a Cons by simp
      ultimately show ?thesis by simp
    qed
  next
    assume "\<forall>c \<in> set s. is_space c"
    then show "\<forall>c \<in> set (dropWhile is_space s). is_space c"
      using set_dropWhileD by fastforce
  qed
  finally show ?thesis .
qed

text \<open>What one call of \<open>addText\<close> appends, and where it leaves the cursor.\<close>

lemma addText_eq:
  "addText text style b =
     (if list_all is_space text then b
      else \<lparr>requests = requests b @ InsertText (currentIndex b) (text @ [nl]) #
                (if style = [] then []
                 else [UpdateParagraphStyle (currentIndex b) (currentIndex b + length text) style]),
            currentIndex = currentIndex b + length text + 1\<rparr>)"
  by (simp add: addText_def addRequest_def Let_def trim_empty_iff list_all_iff)

lemma prefix_not_blank [simp]: "\<not> list_all is_space (prefix_of tag i)"
  by (simp add: prefix_of_def bullet_def is_space_def js_def)


section \<open>The cursor is tracked by every step of the walk\<close>











declare walkChildNodes.simps(2) [simp del]







section \<open>The transformer with the library of the program\<close>

lemma no_body_throws:
  "doc_body api = (\<lambda>doc. None) \<Longrightarrow> htmlToGoogleDocsStructure api parse htmlContent = Inl TypeError"
  by (cases "parse htmlContent") (simp_all add: htmlToGoogleDocsStructure_def walkDOM_def)

lemma xmldom_throws: "htmlToGoogleDocsStructure xmldom parse htmlContent = Inl TypeError"
  by (rule no_body_throws) (simp add: xmldom_def)

lemmas walk_eval =
  htmlToGoogleDocsStructure_def walkDOM_def dom_with_body_def walkChildNodes.simps
  processElement_def children_def addText_eq start_def js_def nl_def is_space_def
  prefix_of_def bullet_def

lemma xmldom_throws_001: "htmlToGoogleDocsStructure_001 xmldom parse htmlContent = Inl TypeError"
  by (cases "parse htmlContent") (simp_all add: htmlToGoogleDocsStructure_001_def xmldom_def)

lemma processElement_other:
  "tagName e \<notin> set [''H1'', ''H2'', ''P'', ''PRE'', ''UL'', ''OL'', ''BLOCKQUOTE'']
   \<Longrightarrow> processElement api e b = (Normal, b)"
  by (simp add: processElement_def)


section \<open>Heading followed by paragraph\<close>

text \<open>
  C2. On \<open><h1>Title</h1><p>Body</p>\<close> the function throws a \<open>TypeError\<close> and
  returns no operation, whatever the parser hands back: the document of \<open>xmldom\<close> has no
  \<open>body\<close>, and \<open>walkDOM\<close> reads \<open>nodeType\<close> of \<open>undefined\<close>. With a library whose
  document has the body element of this fragment, the same code returns exactly the
  four operations: the insertion of \<open>Title\<close> and a newline at 1, the heading-1 style
  over [1,6), the insertion of \<open>Body\<close> and a newline at 7, the normal-text style over
  [7,11).
\<close>

theorem heading_paragraph_fragment:
  "htmlToGoogleDocsStructure xmldom parse (js ''<h1>Title</h1><p>Body</p>'') = Inl TypeError
   \<and> htmlToGoogleDocsStructure
         (dom_with_body (Element ''BODY'' [Element ''H1'' [TextNode (js ''Title'')],
                                           Element ''P'' [TextNode (js ''Body'')]]))
         (\<lambda>html. Some (DomDocument []))
         (js ''<h1>Title</h1><p>Body</p>'')
       = Inr [InsertText 1 (js ''Title'' @ [nl]), UpdateParagraphStyle 1 6 h1_style,
              InsertText 7 (js ''Body'' @ [nl]), UpdateParagraphStyle 7 11 p_style]
   \<and> map_of h1_style ''namedStyleType'' = Some (JString ''HEADING_1'')
   \<and> map_of p_style ''namedStyleType'' = Some (JString ''NORMAL_TEXT'')"
proof -
  have "htmlToGoogleDocsStructure
         (dom_with_body (Element ''BODY'' [Element ''H1'' [TextNode (js ''Title'')],
                                           Element ''P'' [TextNode (js ''Body'')]]))
         (\<lambda>html. Some (DomDocument []))
         (js ''<h1>Title</h1><p>Body</p>'')
       = Inr [InsertText 1 (js ''Title'' @ [nl]), UpdateParagraphStyle 1 6 h1_style,
              InsertText 7 (js ''Body'' @ [nl]), UpdateParagraphStyle 7 11 p_style]"
    by (simp add: walk_eval)
  then show ?thesis
    using xmldom_throws by (simp add: h1_style_def p_style_def)
qed


section \<open>Cursor discipline\<close>




section \<open>Unrecognised tags\<close>

text \<open>
  C4. The \<open>switch\<close> of \<open>processElement\<close> has no default branch: an element whose tag
  name is none of \<open>H1\<close>, \<open>H2\<close>, \<open>P\<close>, \<open>PRE\<close>, \<open>UL\<close>, \<open>OL\<close>, \<open>BLOCKQUOTE\<close> adds no
  operation. On \<open><h3>Sub</h3>\<close> the function throws; with a library whose document has
  the body element of this fragment it returns the empty list, so the text of the
  heading is lost. The earlier server file has the fallback: its default branch
  inserts the text of the element with no style, and on the same body its function
  returns that one insertion; with \<open>xmldom\<close> it throws as well.
\<close>

theorem unrecognised_tag_dropped:
  "(tagName e \<notin> set [''H1'', ''H2'', ''P'', ''PRE'', ''UL'', ''OL'', ''BLOCKQUOTE'']
      \<longrightarrow> processElement api e b = (Normal, b))
   \<and> htmlToGoogleDocsStructure xmldom parse (js ''<h3>Sub</h3>'') = Inl TypeError
   \<and> htmlToGoogleDocsStructure
         (dom_with_body (Element ''BODY'' [Element ''H3'' [TextNode (js ''Sub'')]]))
         (\<lambda>html. Some (DomDocument []))
         (js ''<h3>Sub</h3>'')
       = Inr []
   \<and> element_case_001 api (Element ''H3'' [TextNode (js ''Sub'')]) b
       = (Normal, b\<lparr>requests := requests b @ [InsertText (currentIndex b) (js ''Sub'' @ [nl])],
                     currentIndex := currentIndex b + 4\<rparr>)
   \<and> htmlToGoogleDocsStructure_001
         (dom_with_body (Element ''BODY'' [Element ''H3'' [TextNode (js ''Sub'')]]))
         (\<lambda>html. Some (DomDocument []))
         (js ''<h3>Sub</h3>'')
       = Inr [InsertText 1 (js ''Sub'' @ [nl])]
   \<and> htmlToGoogleDocsStructure_001 xmldom parse (js ''<h3>Sub</h3>'') = Inl TypeError"
proof -
  have a: "htmlToGoogleDocsStructure
         (dom_with_body (Element ''BODY'' [Element ''H3'' [TextNode (js ''Sub'')]]))
         (\<lambda>html. Some (DomDocument []))
         (js ''<h3>Sub</h3>'')
       = Inr []"
    by (simp add: walk_eval)
  have c: "element_case_001 api (Element ''H3'' [TextNode (js ''Sub'')]) b
       = (Normal, b\<lparr>requests := requests b @ [InsertText (currentIndex b) (js ''Sub'' @ [nl])],
                     currentIndex := currentIndex b + 4\<rparr>)"
    by (simp add: element_case_001_def toLowerCase_def addFormattedText_001_def addRequest_def
          js_def)
  have d: "htmlToGoogleDocsStructure_001
         (dom_with_body (Element ''BODY'' [Element ''H3'' [TextNode (js ''Sub'')]]))
         (\<lambda>html. Some (DomDocument []))
         (js ''<h3>Sub</h3>'')
       = Inr [InsertText 1 (js ''Sub'' @ [nl])]"
    by (simp add: htmlToGoogleDocsStructure_001_def dom_with_body_def children_def
          element_case_001_def toLowerCase_def addFormattedText_001_def addRequest_def
          start_def js_def)
  show ?thesis
    using a c d xmldom_throws xmldom_throws_001 processElement_other by blast
qed

theorem unrecognised_tag_dropped_witness:
  "tagName (Element ''h3'' [TextNode (js ''Sub'')])
     \<notin> set [''H1'', ''H2'', ''P'', ''PRE'', ''UL'', ''OL'', ''BLOCKQUOTE'']
   \<and> processElement xmldom (Element ''h3'' [TextNode (js ''Sub'')]) start = (Normal, start)"
  using unrecognised_tag_dropped [of "Element ''h3'' [TextNode (js ''Sub'')]" xmldom start
          "\<lambda>html. None"]
  by simp


section \<open>List containers\<close>

text \<open>
  C5. On \<open><ul><li>A</li><li>B</li></ul>\<close> the function throws and returns no
  operation; processing a \<open>UL\<close> element throws as well, because the elements of
  \<open>xmldom\<close> have no \<open>children\<close>. With a library that has \<open>body\<close>, \<open>children\<close> and
  \<open>forEach\<close> the same code returns the two bullet lines with their list-item style,
  which indents by 36 points, and nothing for the container or the items themselves;
  an ordered list numbers its items from 1.
\<close>

theorem list_fragment:
  "htmlToGoogleDocsStructure xmldom parse (js ''<ul><li>A</li><li>B</li></ul>'') = Inl TypeError
   \<and> processElement xmldom (Element ''UL'' [Element ''LI'' [TextNode (js ''A'')],
                                             Element ''LI'' [TextNode (js ''B'')]]) b
       = (Throw TypeError, b)
   \<and> htmlToGoogleDocsStructure
         (dom_with_body (Element ''BODY'' [Element ''UL'' [Element ''LI'' [TextNode (js ''A'')],
                                                           Element ''LI'' [TextNode (js ''B'')]]]))
         (\<lambda>html. Some (DomDocument []))
         (js ''<ul><li>A</li><li>B</li></ul>'')
       = Inr [InsertText 1 ([bullet, 0x20] @ js ''A'' @ [nl]), UpdateParagraphStyle 1 4 li_style,
              InsertText 5 ([bullet, 0x20] @ js ''B'' @ [nl]), UpdateParagraphStyle 5 8 li_style]
   \<and> htmlToGoogleDocsStructure
         (dom_with_body (Element ''BODY'' [Element ''OL'' [Element ''LI'' [TextNode (js ''A'')],
                                                           Element ''LI'' [TextNode (js ''B'')]]]))
         (\<lambda>html. Some (DomDocument []))
         (js ''<ol><li>A</li><li>B</li></ol>'')
       = Inr [InsertText 1 (js ''1. A'' @ [nl]), UpdateParagraphStyle 1 5 li_style,
              InsertText 6 (js ''2. B'' @ [nl]), UpdateParagraphStyle 6 10 li_style]
   \<and> map_of li_style ''indentStart'' = Some (pt 36)"
proof -
  have u: "htmlToGoogleDocsStructure
         (dom_with_body (Element ''BODY'' [Element ''UL'' [Element ''LI'' [TextNode (js ''A'')],
                                                           Element ''LI'' [TextNode (js ''B'')]]]))
         (\<lambda>html. Some (DomDocument []))
         (js ''<ul><li>A</li><li>B</li></ul>'')
       = Inr [InsertText 1 ([bullet, 0x20] @ js ''A'' @ [nl]), UpdateParagraphStyle 1 4 li_style,
              InsertText 5 ([bullet, 0x20] @ js ''B'' @ [nl]), UpdateParagraphStyle 5 8 li_style]"
    by (simp add: walk_eval)
  have o: "htmlToGoogleDocsStructure
         (dom_with_body (Element ''BODY'' [Element ''OL'' [Element ''LI'' [TextNode (js ''A'')],
                                                           Element ''LI'' [TextNode (js ''B'')]]]))
         (\<lambda>html. Some (DomDocument []))
         (js ''<ol><li>A</li><li>B</li></ol>'')
       = Inr [InsertText 1 (js ''1. A'' @ [nl]), UpdateParagraphStyle 1 5 li_style,
              InsertText 6 (js ''2. B'' @ [nl]), UpdateParagraphStyle 6 10 li_style]"
    by (simp add: walk_eval decimal.simps digit_def)
  have p: "processElement xmldom (Element ''UL'' [Element ''LI'' [TextNode (js ''A'')],
                                             Element ''LI'' [TextNode (js ''B'')]]) b
       = (Throw TypeError, b)"
    by (simp add: processElement_def children_def xmldom_def)
  show ?thesis using u o p xmldom_throws by (simp add: li_style_def)
qed


section \<open>Nested handled elements\<close>

text \<open>
  C10. On \<open><blockquote><p>x</p></blockquote>\<close> the function throws and returns no
  operation, so the text of the paragraph is not inserted at all. With a library that
  has \<open>body\<close> and \<open>forEach\<close> the same code inserts it twice: as the text of the
  blockquote at 1, and again at 3 when the walk reaches the paragraph.
\<close>

theorem nested_fragment:
  "htmlToGoogleDocsStructure xmldom parse (js ''<blockquote><p>x</p></blockquote>'')
     = Inl TypeError
   \<and> htmlToGoogleDocsStructure
         (dom_with_body (Element ''BODY''
            [Element ''BLOCKQUOTE'' [Element ''P'' [TextNode (js ''x'')]]]))
         (\<lambda>html. Some (DomDocument []))
         (js ''<blockquote><p>x</p></blockquote>'')
       = Inr [InsertText 1 (js ''x'' @ [nl]), UpdateParagraphStyle 1 2 blockquote_style,
              InsertText 3 (js ''x'' @ [nl]), UpdateParagraphStyle 3 4 p_style]"
proof -
  have "htmlToGoogleDocsStructure
         (dom_with_body (Element ''BODY''
            [Element ''BLOCKQUOTE'' [Element ''P'' [TextNode (js ''x'')]]]))
         (\<lambda>html. Some (DomDocument []))
         (js ''<blockquote><p>x</p></blockquote>'')
       = Inr [InsertText 1 (js ''x'' @ [nl]), UpdateParagraphStyle 1 2 blockquote_style,
              InsertText 3 (js ''x'' @ [nl]), UpdateParagraphStyle 3 4 p_style]"
    by (simp add: walk_eval)
  then show ?thesis using xmldom_throws by simp
qed


section \<open>Batch loops\<close>

lemma convertFile_index_success:
  "calls_succeed_index marked parse fa \<Longrightarrow>
   convertedFiles (convertFile_index marked parse fa j) = convertedFiles j @ entry_index fa"
  by (auto simp: calls_succeed_index_def convertFile_index_def tryFile_index_def
        createAndExport_def entry_index_def split: sum.splits option.splits)

lemma convertFile_index_submit_failure:
  "fails_at_submit_index marked parse fa message \<Longrightarrow>
   convertedFiles (convertFile_index marked parse fa j)
     = convertedFiles j @ [Failed (fileName (fst fa)) (Remote message)]"
  by (auto simp: fails_at_submit_index_def convertFile_index_def tryFile_index_def
        createAndExport_def split: sum.splits option.splits)

lemma fold_index_success:
  "\<forall>fa \<in> set fs. calls_succeed_index marked parse fa \<Longrightarrow>
   convertedFiles (fold (convertFile_index marked parse) fs j)
     = convertedFiles j @ concat (map entry_index fs)"
  by (induction fs arbitrary: j) (simp_all add: convertFile_index_success)

lemma entries_length:
  "length (concat (map entry_index fs))
     = length (filter (\<lambda>fa. \<not> skipName (fileName (fst fa))) fs)"
  by (induction fs) (auto simp: entry_index_def)

lemma entries_not_failed: "filter is_failed (concat (map entry_index fs)) = []"
  by (induction fs) (auto simp: entry_index_def)

lemma fails_at_submit_not_skipped:
  "fails_at_submit_index marked parse fa message \<Longrightarrow> \<not> skipName (fileName (fst fa))"
  by (simp add: fails_at_submit_index_def)

text \<open>
  The loop that classifies: with a library whose document has no \<open>body\<close>, the
  transformer throws for every document that is classified as Markdown, so an iteration
  leaves a failed entry or none.
\<close>

lemma convertFile_all_failed:
  assumes "doc_body api = (\<lambda>doc. None)"
  shows "\<exists>new. convertedFiles (convertFile api marked parse fa j) = convertedFiles j @ new
               \<and> list_all is_failed new"
proof (cases "tryFile api marked parse (fst fa) (snd fa) j")
  case (Inl e)
  then show ?thesis by (simp add: convertFile_def)
next
  case (Inr j')
  then have "j' = j"
    using no_body_throws[OF assms]
    by (auto simp: tryFile_def Let_def split: sum.splits if_splits)
  then show ?thesis using Inr by (simp add: convertFile_def)
qed

lemma fold_all_failed:
  assumes "doc_body api = (\<lambda>doc. None)"
  shows "\<exists>new. convertedFiles (fold (convertFile api marked parse) fs j) = convertedFiles j @ new
               \<and> list_all is_failed new"
proof (induction fs arbitrary: j)
  case Nil
  show ?case by simp
next
  case (Cons fa fs)
  obtain n1 where n1: "convertedFiles (convertFile api marked parse fa j) = convertedFiles j @ n1"
    "list_all is_failed n1"
    using convertFile_all_failed[OF assms] by blast
  obtain n2 where n2: "convertedFiles (fold (convertFile api marked parse) fs
                          (convertFile api marked parse fa j))
                       = convertedFiles (convertFile api marked parse fa j) @ n2"
    "list_all is_failed n2"
    using Cons.IH by blast
  show ?case
    by (rule exI[of _ "n1 @ n2"]) (simp add: n1 n2)
qed

lemma convertLoop_xmldom_all_failed:
  "list_all is_failed (convertedFiles (convertLoop xmldom marked parse files))"
  using fold_all_failed[of xmldom marked parse files "\<lparr>convertedFiles = [], zipFiles = []\<rparr>"]
  by (auto simp: convertLoop_def xmldom_def)


lemmas classifier_eval =
  isMarkdownContent_def matchedPatterns_def markdownPatterns_def hasImportantPatterns_def
  test_def headers_def lists_def numberedLists_def codeBlocks_def inlineCode_def emphasis_def
  links_def blockquotes_def tables_def horizontalRules_def lit_def dot_def one_of_def
  is_space_def is_line_terminator_def is_digit_def js_def

lemma js_Nil_iff [simp]: "js s = [] \<longleftrightarrow> s = []"
  by (simp add: js_def)

lemma md_heading: "isMarkdownContent (js ''# B'')"
  by (simp add: classifier_eval)

lemma md_plain: "\<not> isMarkdownContent (js ''plain'')"
  by (simp add: classifier_eval)

lemma skip_converted: "skipName (js ''Converted-c'')"
  by (simp add: skipName_def js_def lower_def)

lemma keep_names: "\<not> skipName (js ''a'')" "\<not> skipName (js ''b'')" "\<not> skipName (js ''d'')"
  by (simp_all add: skipName_def js_def lower_def)

lemma heading_requests_index:
  "htmlToGoogleDocsStructure_index (\<lambda>html. Some (DomDocument [Element ''h1'' [TextNode (js ''B'')]]))
     html
   = Inr [InsertText 1 (js ''B'' @ [nl]),
          UpdateTextStyle 1 2 (heading_textStyle 16),
          UpdateParagraphStyle 1 2 [(''namedStyleType'', JString ''HEADING_1'')]]"
  by (simp add: htmlToGoogleDocsStructure_index_def getElementsByTagName_def
        addFormattedText_def addRequest_def start_def heading_textStyle_def trim_def js_def
        is_space_def)


text \<open>
  C6. In the handler of \<open>index.js\<close>, when exactly document \<open>k\<close> fails at \<open>batchUpdate\<close>
  and every statement of every other iteration succeeds, the results are, in iteration
  order, one converted entry for each document before \<open>k\<close> whose name does not contain
  \<open>converted\<close>, the failed entry of \<open>k\<close> with the message of the error, and one
  converted entry for each such document after \<open>k\<close>: the later documents are still
  processed, the failed entry is the only one, and it sits at the number of documents
  before \<open>k\<close> that are not passed over. A document whose name contains \<open>converted\<close>
  leaves no entry, so the list is as long as the number of the other documents; it has
  length \<open>N\<close> with the failed entry at position \<open>k\<close> when no name contains \<open>converted\<close>.
  In the handler of the multi-route server every entry is a failed one, because the
  transformer throws for each document classified as Markdown.
\<close>

theorem batch_one_submit_failure:
  assumes k: "k < length files"
    and fail: "fails_at_submit_index marked parse (files ! k) message"
    and others: "\<forall>i < length files. i \<noteq> k \<longrightarrow> calls_succeed_index marked parse (files ! i)"
  shows "\<exists>results.
           api_convert_index marked parse (Inr files) = Ok200 (length results) results
         \<and> results = concat (map entry_index (take k files))
                     @ [Failed (fileName (fst (files ! k))) (Remote message)]
                     @ concat (map entry_index (drop (Suc k) files))
         \<and> filter is_failed results = [Failed (fileName (fst (files ! k))) (Remote message)]
         \<and> results ! length (filter (\<lambda>fa. \<not> skipName (fileName (fst fa))) (take k files))
             = Failed (fileName (fst (files ! k))) (Remote message)
         \<and> length results = length (filter (\<lambda>fa. \<not> skipName (fileName (fst fa))) files)
         \<and> ((\<forall>fa \<in> set files. \<not> skipName (fileName (fst fa)))
              \<longrightarrow> length results = length files
                  \<and> results ! k = Failed (fileName (fst (files ! k))) (Remote message))
         \<and> list_all is_failed (convertedFiles (convertLoop xmldom marked parse files))"
proof -
  let ?r = "convertedFiles (convertLoop_index marked parse files)"
  let ?F = "Failed (fileName (fst (files ! k))) (Remote message)"
  let ?keep = "\<lambda>fa::drive_file \<times> answers. \<not> skipName (fileName (fst fa))"
  have split: "files = take k files @ files ! k # drop (Suc k) files"
    using k by (rule id_take_nth_drop)
  have before: "\<forall>fa \<in> set (take k files). calls_succeed_index marked parse fa"
  proof
    fix fa assume "fa \<in> set (take k files)"
    then obtain i where "i < k" "fa = files ! i" using k
      by (auto simp: in_set_conv_nth)
    then show "calls_succeed_index marked parse fa"
      using others k by auto
  qed
  have after: "\<forall>fa \<in> set (drop (Suc k) files). calls_succeed_index marked parse fa"
  proof
    fix fa assume "fa \<in> set (drop (Suc k) files)"
    then obtain i where "i < length files - Suc k" "fa = files ! (Suc k + i)"
      by (auto simp: in_set_conv_nth)
    then have "Suc k + i < length files" "fa = files ! (Suc k + i)" by auto
    then show "calls_succeed_index marked parse fa"
      using others by auto
  qed
  let ?j0 = "\<lparr>convertedFiles = [], zipFiles = []\<rparr>"
  let ?j1 = "fold (convertFile_index marked parse) (take k files) ?j0"
  let ?j2 = "convertFile_index marked parse (files ! k) ?j1"
  have "convertLoop_index marked parse files
        = fold (convertFile_index marked parse) (take k files @ files ! k # drop (Suc k) files) ?j0"
    unfolding convertLoop_index_def using split by simp
  then have "convertLoop_index marked parse files
        = fold (convertFile_index marked parse) (drop (Suc k) files) ?j2"
    by simp
  then have r: "?r = concat (map entry_index (take k files)) @ [?F]
                     @ concat (map entry_index (drop (Suc k) files))"
    using fold_index_success[OF after, of ?j2] fold_index_success[OF before, of ?j0]
      convertFile_index_submit_failure[OF fail, of ?j1]
    by simp
  have f: "filter is_failed ?r = [?F]"
    unfolding r by (simp add: entries_not_failed)
  have n: "?r ! length (filter ?keep (take k files)) = ?F"
    unfolding r by (simp add: nth_append entries_length)
  have "length (filter ?keep files)
      = length (filter ?keep (take k files)) + 1 + length (filter ?keep (drop (Suc k) files))"
    using fails_at_submit_not_skipped[OF fail]
    by (subst split) simp
  then have l: "length ?r = length (filter ?keep files)"
    unfolding r by (simp add: entries_length)
  have full: "length ?r = length files \<and> ?r ! k = ?F"
    if all: "\<forall>fa \<in> set files. \<not> skipName (fileName (fst fa))"
  proof -
    have e: "filter ?keep files = files" using all by (simp add: filter_id_conv)
    have "\<forall>fa \<in> set (take k files). \<not> skipName (fileName (fst fa))"
      using all by (meson in_set_takeD)
    then have "filter ?keep (take k files) = take k files" by (simp add: filter_id_conv)
    then have "length (filter ?keep (take k files)) = k" using k by simp
    then show ?thesis using l n e by simp
  qed
  have "api_convert_index marked parse (Inr files) = Ok200 (length ?r) ?r"
    by (simp add: api_convert_index_def respond_def)
  then show ?thesis using r f n l full convertLoop_xmldom_all_failed by blast
qed


theorem batch_one_submit_failure_witness:
  "(1::nat) < length [(named ''a'', remote_ok (js ''# B'')),
                      (named ''b'', submit_fails (js ''# B'') ''quota''),
                      (named ''Converted-c'', remote_ok (js ''# B'')),
                      (named ''d'', remote_ok (js ''plain''))]
   \<and> fails_at_submit_index (\<lambda>c. js ''<h1>B</h1>'')
        (\<lambda>html. Some (DomDocument [Element ''h1'' [TextNode (js ''B'')]]))
        ([(named ''a'', remote_ok (js ''# B'')),
          (named ''b'', submit_fails (js ''# B'') ''quota''),
          (named ''Converted-c'', remote_ok (js ''# B'')),
          (named ''d'', remote_ok (js ''plain''))] ! 1) ''quota''
   \<and> api_convert_index (\<lambda>c. js ''<h1>B</h1>'')
        (\<lambda>html. Some (DomDocument [Element ''h1'' [TextNode (js ''B'')]]))
        (Inr [(named ''a'', remote_ok (js ''# B'')),
              (named ''b'', submit_fails (js ''# B'') ''quota''),
              (named ''Converted-c'', remote_ok (js ''# B'')),
              (named ''d'', remote_ok (js ''plain''))])
       = Ok200 3 [Converted (js ''a'') (js ''a'' @ js ''.pdf''),
                  Failed (js ''b'') (Remote ''quota''),
                  Converted (js ''d'') (js ''d'' @ js ''.pdf'')]"
proof -
  let ?files = "[(named ''a'', remote_ok (js ''# B'')),
                 (named ''b'', submit_fails (js ''# B'') ''quota''),
                 (named ''Converted-c'', remote_ok (js ''# B'')),
                 (named ''d'', remote_ok (js ''plain''))]"
  let ?m = "\<lambda>c::jsstring. js ''<h1>B</h1>''"
  let ?p = "\<lambda>html::jsstring. Some (DomDocument [Element ''h1'' [TextNode (js ''B'')]])"
  have k: "(1::nat) < length ?files" by simp
  have f: "fails_at_submit_index ?m ?p (?files ! 1) ''quota''"
    by (simp add: fails_at_submit_index_def submit_fails_def remote_ok_def named_def
          keep_names heading_requests_index)
  have s: "calls_succeed_index ?m ?p (named ''a'', remote_ok (js ''# B''))"
    "calls_succeed_index ?m ?p (named ''Converted-c'', remote_ok (js ''# B''))"
    "calls_succeed_index ?m ?p (named ''d'', remote_ok (js ''plain''))"
    by (simp_all add: calls_succeed_index_def remote_ok_def named_def keep_names skip_converted
          heading_requests_index)
  have o: "\<forall>i < length ?files. i \<noteq> 1 \<longrightarrow> calls_succeed_index ?m ?p (?files ! i)"
  proof (intro allI impI)
    fix i :: nat
    assume "i < length ?files" "i \<noteq> 1"
    then have "i = 0 \<or> i = 2 \<or> i = 3" by auto
    then show "calls_succeed_index ?m ?p (?files ! i)"
      using s by auto
  qed
  have "api_convert_index ?m ?p (Inr ?files)
       = Ok200 3 [Converted (js ''a'') (js ''a'' @ js ''.pdf''),
                  Failed (js ''b'') (Remote ''quota''),
                  Converted (js ''d'') (js ''d'' @ js ''.pdf'')]"
    using batch_one_submit_failure [OF k f o]
    by (simp add: entry_index_def named_def keep_names skip_converted)
  then show ?thesis using k f by blast
qed

text \<open>
  The claim as written fails: of two documents, the first named \<open>Converted-c\<close> and the
  second failing at \<open>batchUpdate\<close>, the handler of \<open>index.js\<close> returns a results list
  of length one, whose failed entry is at position 0; no entry stands for the document
  passed over. On the same documents the handler of the multi-route server returns one
  entry as well: the first document is not classified as Markdown and leaves none, the
  second fails in the transformer before any document is created.
\<close>

theorem skipped_name_counterexample:
  "length [(named ''Converted-c'', remote_ok (js ''plain'')),
           (named ''b'', submit_fails (js ''# B'') ''quota'')] = 2
   \<and> calls_succeed_index (\<lambda>c. js ''<h1>B</h1>'')
        (\<lambda>html. Some (DomDocument [Element ''h1'' [TextNode (js ''B'')]]))
        (named ''Converted-c'', remote_ok (js ''plain''))
   \<and> fails_at_submit_index (\<lambda>c. js ''<h1>B</h1>'')
        (\<lambda>html. Some (DomDocument [Element ''h1'' [TextNode (js ''B'')]]))
        (named ''b'', submit_fails (js ''# B'') ''quota'') ''quota''
   \<and> api_convert_index (\<lambda>c. js ''<h1>B</h1>'')
        (\<lambda>html. Some (DomDocument [Element ''h1'' [TextNode (js ''B'')]]))
        (Inr [(named ''Converted-c'', remote_ok (js ''plain'')),
              (named ''b'', submit_fails (js ''# B'') ''quota'')])
       = Ok200 1 [Failed (js ''b'') (Remote ''quota'')]
   \<and> api_convert xmldom (\<lambda>c. js ''<h1>B</h1>'')
        (\<lambda>html. Some (DomDocument [Element ''h1'' [TextNode (js ''B'')]]))
        (Inr [(named ''Converted-c'', remote_ok (js ''plain'')),
              (named ''b'', submit_fails (js ''# B'') ''quota'')])
       = Ok200 1 [Failed (js ''b'') (Script TypeError)]"
proof -
  let ?c = "(named ''Converted-c'', remote_ok (js ''plain''))"
  let ?b = "(named ''b'', submit_fails (js ''# B'') ''quota'')"
  let ?m = "\<lambda>c::jsstring. js ''<h1>B</h1>''"
  let ?p = "\<lambda>html::jsstring. Some (DomDocument [Element ''h1'' [TextNode (js ''B'')]])"
  let ?j0 = "\<lparr>convertedFiles = [], zipFiles = []\<rparr>"
  have s: "calls_succeed_index ?m ?p ?c"
    by (simp add: calls_succeed_index_def named_def skip_converted)
  have f: "fails_at_submit_index ?m ?p ?b ''quota''"
    by (simp add: fails_at_submit_index_def submit_fails_def remote_ok_def named_def
          keep_names heading_requests_index)
  have c1: "convertFile_index ?m ?p ?c ?j0 = ?j0"
    by (simp add: convertFile_index_def tryFile_index_def named_def skip_converted)
  have b1: "convertedFiles (convertFile_index ?m ?p ?b ?j0) = [Failed (js ''b'') (Remote ''quota'')]"
    using convertFile_index_submit_failure[OF f, of ?j0] by (simp add: named_def)
  have i: "api_convert_index ?m ?p (Inr [?c, ?b]) = Ok200 1 [Failed (js ''b'') (Remote ''quota'')]"
    by (simp add: api_convert_index_def respond_def convertLoop_index_def c1 b1)
  have c2: "convertFile xmldom ?m ?p ?c ?j0 = ?j0"
    by (simp add: convertFile_def tryFile_def remote_ok_def md_plain)
  have b2: "convertedFiles (convertFile xmldom ?m ?p ?b ?j0) = [Failed (js ''b'') (Script TypeError)]"
    by (simp add: convertFile_def tryFile_def remote_ok_def submit_fails_def md_heading
          xmldom_throws named_def)
  have x: "api_convert xmldom ?m ?p (Inr [?c, ?b]) = Ok200 1 [Failed (js ''b'') (Script TypeError)]"
    by (simp add: api_convert_def respond_def convertLoop_def c2 b2)
  show ?thesis using s f i x by simp
qed


section \<open>The matcher agrees with the declarative reading\<close>

lemma after_append: "after p (u @ v) = after (after p u) v"
  by (cases u; cases v) auto

lemma rep_iff:
  "(q, t) \<in> set (rep n P p s) \<longleftrightarrow>
     (\<exists>w. s = w @ t \<and> n \<le> length w \<and> list_all P w \<and> q = after p w)"
proof (induction s arbitrary: n p)
  case Nil
  show ?case by auto
next
  case (Cons x xs)
  have "(\<exists>w. x # xs = w @ t \<and> n \<le> length w \<and> list_all P w \<and> q = after p w)
      \<longleftrightarrow> (n = 0 \<and> t = x # xs \<and> q = p)
        \<or> (P x \<and> (\<exists>w'. xs = w' @ t \<and> n - 1 \<le> length w' \<and> list_all P w' \<and> q = after (Some x) w'))"
    (is "?L \<longleftrightarrow> ?A \<or> ?B")
  proof
    assume ?L
    then obtain w where w: "x # xs = w @ t" "n \<le> length w" "list_all P w" "q = after p w" by blast
    show "?A \<or> ?B"
    proof (cases w)
      case Nil
      then show ?thesis using w by simp
    next
      case (Cons y w')
      then have "y = x" "xs = w' @ t" using w(1) by auto
      moreover have "q = after (Some x) w'" using w(4) Cons \<open>y = x\<close> by (cases w') auto
      ultimately show ?thesis using w Cons by auto
    qed
  next
    assume "?A \<or> ?B"
    then show ?L
    proof
      assume ?A
      then show ?L by (intro exI[of _ "[]"]) simp
    next
      assume ?B
      then obtain w' where w': "P x" "xs = w' @ t" "n - 1 \<le> length w'" "list_all P w'"
        "q = after (Some x) w'" by blast
      have "q = after p (x # w')" using w'(5) by (cases w') auto
      then show ?L using w' by (intro exI[of _ "x # w'"]) auto
    qed
  qed
  then show ?case using Cons.IH[of "n - 1" "Some x"] by auto
qed

lemma step_iff:
  "(q, t) \<in> set (step r (p, s)) \<longleftrightarrow> (\<exists>w. s = w @ t \<and> q = after p w \<and> lang r p w t)"
proof (induction r arbitrary: p s q t)
  case (Chr c)
  show ?case by (cases s) auto
next
  case (Cls P)
  show ?case by (cases s) auto
next
  case (Rep n P)
  show ?case by (auto simp: rep_iff)
next
  case Bol
  show ?case by auto
next
  case Eol
  show ?case by auto
next
  case (Cat a b)
  have "(q, t) \<in> set (step (Cat a b) (p, s))
      \<longleftrightarrow> (\<exists>q1 t1. (q1, t1) \<in> set (step a (p, s)) \<and> (q, t) \<in> set (step b (q1, t1)))"
    by auto
  also have "\<dots> \<longleftrightarrow> (\<exists>w1 w2. s = w1 @ w2 @ t \<and> lang a p w1 (w2 @ t)
                           \<and> q = after (after p w1) w2 \<and> lang b (after p w1) w2 t)"
    by (auto simp: Cat.IH)
  also have "\<dots> \<longleftrightarrow> (\<exists>w. s = w @ t \<and> q = after p w \<and> lang (Cat a b) p w t)"
  proof
    assume "\<exists>w1 w2. s = w1 @ w2 @ t \<and> lang a p w1 (w2 @ t)
                           \<and> q = after (after p w1) w2 \<and> lang b (after p w1) w2 t"
    then obtain w1 w2 where "s = w1 @ w2 @ t" "lang a p w1 (w2 @ t)"
      "q = after (after p w1) w2" "lang b (after p w1) w2 t" by blast
    then have "s = (w1 @ w2) @ t" "q = after p (w1 @ w2)"
      "\<exists>v1 v2. w1 @ w2 = v1 @ v2 \<and> lang a p v1 (v2 @ t) \<and> lang b (after p v1) v2 t"
      by (auto simp: after_append)
    then have "s = (w1 @ w2) @ t \<and> q = after p (w1 @ w2) \<and> lang (Cat a b) p (w1 @ w2) t"
      by simp
    then show "\<exists>w. s = w @ t \<and> q = after p w \<and> lang (Cat a b) p w t" by blast
  next
    assume "\<exists>w. s = w @ t \<and> q = after p w \<and> lang (Cat a b) p w t"
    then obtain w1 w2 where "s = (w1 @ w2) @ t" "q = after p (w1 @ w2)"
      "lang a p w1 (w2 @ t)" "lang b (after p w1) w2 t" by auto
    then have "s = w1 @ w2 @ t \<and> lang a p w1 (w2 @ t)
                \<and> q = after (after p w1) w2 \<and> lang b (after p w1) w2 t"
      by (simp add: after_append)
    then show "\<exists>w1 w2. s = w1 @ w2 @ t \<and> lang a p w1 (w2 @ t)
                           \<and> q = after (after p w1) w2 \<and> lang b (after p w1) w2 t"
      by blast
  qed
  finally show ?case .
next
  case (Alt a b)
  show ?case by (auto simp: Alt.IH)
qed

lemma search_iff:
  "search r p s \<longleftrightarrow> (\<exists>u v. s = u @ v \<and> step r (after p u, v) \<noteq> [])"
proof (induction s arbitrary: p)
  case Nil
  show ?case by simp
next
  case (Cons x xs)
  have "(\<exists>u v. x # xs = u @ v \<and> step r (after p u, v) \<noteq> [])
     \<longleftrightarrow> step r (p, x # xs) \<noteq> [] \<or> (\<exists>u' v. xs = u' @ v \<and> step r (after (Some x) u', v) \<noteq> [])"
    (is "?L \<longleftrightarrow> ?A \<or> ?B")
  proof
    assume ?L
    then obtain u v where uv: "x # xs = u @ v" "step r (after p u, v) \<noteq> []" by blast
    show "?A \<or> ?B"
    proof (cases u)
      case Nil
      then show ?thesis using uv by simp
    next
      case (Cons y u')
      then have "xs = u' @ v" "y = x" using uv(1) by auto
      moreover have "after p u = after (Some x) u'" using Cons \<open>y = x\<close> by (cases u') auto
      ultimately show ?thesis using uv(2) by auto
    qed
  next
    assume "?A \<or> ?B"
    then show ?L
    proof
      assume ?A
      then have "x # xs = [] @ (x # xs) \<and> step r (after p [], x # xs) \<noteq> []" by simp
      then show ?L by blast
    next
      assume ?B
      then obtain u' v where "xs = u' @ v" "step r (after (Some x) u', v) \<noteq> []" by blast
      moreover have "after p (x # u') = after (Some x) u'" by (cases u') auto
      ultimately have "x # xs = (x # u') @ v \<and> step r (after p (x # u'), v) \<noteq> []" by simp
      then show ?L by blast
    qed
  qed
  then show ?case using Cons.IH[of "Some x"] by simp
qed

text \<open>The matcher is sound and complete for the declarative reading.\<close>

lemma test_iff:
  "test r s \<longleftrightarrow> (\<exists>u w t. s = u @ w @ t \<and> lang r (after None u) w t)"
proof -
  have "step r (q, v) \<noteq> [] \<longleftrightarrow> (\<exists>w t. v = w @ t \<and> lang r q w t)" for q v
  proof -
    have "step r (q, v) \<noteq> [] \<longleftrightarrow> (\<exists>q' t. (q', t) \<in> set (step r (q, v)))"
      by (cases "step r (q, v)") auto
    then show ?thesis by (auto simp: step_iff)
  qed
  then show ?thesis by (auto simp: test_def search_iff)
qed

lemma lang_Cls_Cat [simp]:
  "lang (Cat (Cls P) r) p w t \<longleftrightarrow> (\<exists>x w2. w = x # w2 \<and> P x \<and> lang r (Some x) w2 t)"
proof
  assume "lang (Cat (Cls P) r) p w t"
  then obtain w1 w2 x where "w = w1 @ w2" "w1 = [x]" "P x" "lang r (after p w1) w2 t"
    by auto
  then have "w = x # w2 \<and> P x \<and> lang r (Some x) w2 t" by simp
  then show "\<exists>x w2. w = x # w2 \<and> P x \<and> lang r (Some x) w2 t" by blast
next
  assume "\<exists>x w2. w = x # w2 \<and> P x \<and> lang r (Some x) w2 t"
  then obtain x w2 where "w = x # w2" "P x" "lang r (Some x) w2 t" by blast
  then have "w = [x] @ w2 \<and> lang (Cls P) p [x] (w2 @ t) \<and> lang r (after p [x]) w2 t"
    by simp
  then show "lang (Cat (Cls P) r) p w t" unfolding lang.simps(6) by blast
qed

lemma lang_Chr_Cat [simp]:
  "lang (Cat (Chr c) r) p w t \<longleftrightarrow> (\<exists>w2. w = c # w2 \<and> lang r (Some c) w2 t)"
proof
  assume "lang (Cat (Chr c) r) p w t"
  then obtain w1 w2 where "w = w1 @ w2" "w1 = [c]" "lang r (after p w1) w2 t"
    by auto
  then have "w = c # w2 \<and> lang r (Some c) w2 t" by simp
  then show "\<exists>w2. w = c # w2 \<and> lang r (Some c) w2 t" by blast
next
  assume "\<exists>w2. w = c # w2 \<and> lang r (Some c) w2 t"
  then obtain w2 where "w = c # w2" "lang r (Some c) w2 t" by blast
  then have "w = [c] @ w2 \<and> lang (Chr c) p [c] (w2 @ t) \<and> lang r (after p [c]) w2 t"
    by simp
  then show "lang (Cat (Chr c) r) p w t" unfolding lang.simps(6) by blast
qed

lemma lang_Bol_Cat [simp]:
  "lang (Cat Bol r) p w t \<longleftrightarrow> at_bol p \<and> lang r p w t"
  by auto

lemma lang_Rep_Cat [simp]:
  "lang (Cat (Rep n P) r) p w t \<longleftrightarrow>
     (\<exists>m w2. w = m @ w2 \<and> n \<le> length m \<and> list_all P m \<and> lang r (after p m) w2 t)"
  by auto

declare lang.simps(6) [simp del]

lemma at_bol_after [simp]: "at_bol (after None u) \<longleftrightarrow> line_start u"
  by (cases u) (auto simp: line_start_def)

lemma at_eol_iff [simp]: "at_eol t \<longleftrightarrow> line_end t"
  by (cases t) (auto simp: line_end_def)

lemma lang_headers:
  "lang headers p w t \<longleftrightarrow>
     (\<exists>c m. w = ch CHR ''#'' # c # m \<and> is_space c \<and> m \<noteq> [] \<and> list_all dot m)"
  by (auto simp: headers_def lit_def Suc_le_eq)


lemma lang_lists:
  "lang lists p w t \<longleftrightarrow>
     (at_bol p \<and> (\<exists>b c m. w = b # c # m \<and> one_of ''-*+'' b \<and> is_space c \<and> m \<noteq> []
        \<and> list_all dot m))"
  by (auto simp: lists_def Suc_le_eq)

lemma lang_numberedLists:
  "lang numberedLists p w t \<longleftrightarrow>
     (at_bol p \<and> (\<exists>ds c m. w = ds @ ch CHR ''.'' # c # m \<and> ds \<noteq> [] \<and> list_all is_digit ds
        \<and> is_space c \<and> m \<noteq> [] \<and> list_all dot m))"
  by (auto simp: numberedLists_def lit_def Suc_le_eq) blast

lemma lang_codeBlocks:
  "lang codeBlocks p w t \<longleftrightarrow>
     (\<exists>m. w = [ch (CHR 0x60), ch (CHR 0x60), ch (CHR 0x60)] @ m
              @ [ch (CHR 0x60), ch (CHR 0x60), ch (CHR 0x60)])"
  by (auto simp: codeBlocks_def lit_def list_all_iff)

lemma lang_inlineCode:
  "lang inlineCode p w t \<longleftrightarrow>
     (\<exists>m. w = ch (CHR 0x60) # m @ [ch (CHR 0x60)] \<and> m \<noteq> [] \<and> ch (CHR 0x60) \<notin> set m)"
  by (auto simp: inlineCode_def lit_def Suc_le_eq list_all_iff)

lemma lang_emphasis:
  "lang emphasis p w t \<longleftrightarrow>
     (w = [ch CHR ''*'', ch CHR ''*''] \<or> w = [ch CHR ''*'']
      \<or> w = [ch CHR ''_'', ch CHR ''_''] \<or> w = [ch CHR ''_''])"
  by (auto simp: emphasis_def lit_def)

lemma lang_links:
  "lang links p w t \<longleftrightarrow>
     (\<exists>a b. w = ch CHR ''['' # a @ ch CHR '']'' # ch CHR ''('' # b @ [ch CHR '')'']
        \<and> a \<noteq> [] \<and> b \<noteq> [] \<and> list_all dot a \<and> list_all dot b)"
  by (auto simp: links_def lit_def Suc_le_eq) blast

lemma lang_blockquotes:
  "lang blockquotes p w t \<longleftrightarrow>
     (at_bol p \<and> (\<exists>c m. w = ch CHR ''>'' # c # m \<and> is_space c \<and> m \<noteq> [] \<and> list_all dot m))"
  by (auto simp: blockquotes_def lit_def Suc_le_eq)

lemma lang_tables:
  "lang tables p w t \<longleftrightarrow>
     (\<exists>m. w = ch CHR ''|'' # m @ [ch CHR ''|''] \<and> m \<noteq> [] \<and> list_all dot m)"
  by (auto simp: tables_def lit_def Suc_le_eq)

lemma lang_horizontalRules:
  "lang horizontalRules p w t \<longleftrightarrow>
     (at_bol p \<and> 3 \<le> length w \<and> list_all (one_of ''-*_'') w \<and> line_end t)"
  by (auto simp: horizontalRules_def)


section \<open>Each pattern is its signal\<close>

lemma dot_eq: "dot = (\<lambda>c. \<not> is_line_terminator c)"
  by (simp add: dot_def fun_eq_iff)

lemma one_of_bullets:
  "one_of ''-*+'' b \<longleftrightarrow> (b = ch CHR ''-'' \<or> b = ch CHR ''*'' \<or> b = ch CHR ''+'')"
  by (auto simp: one_of_def js_def)

lemma one_of_rules:
  "one_of ''-*_'' = (\<lambda>c. c = ch CHR ''-'' \<or> c = ch CHR ''*'' \<or> c = ch CHR ''_'')"
  by (auto simp: one_of_def js_def fun_eq_iff)

lemma test_headers: "test headers s = sig_heading s"
proof
  assume "test headers s"
  then obtain u w t c m where a: "s = u @ w @ t" "w = ch CHR ''#'' # c # m" "is_space c"
    "m \<noteq> []" "list_all dot m"
    unfolding test_iff lang_headers by blast
  then obtain d m' where "m = d # m'" by (cases m) auto
  then have "s = u @ ch CHR ''#'' # c # d # (m' @ t) \<and> is_space c \<and> \<not> is_line_terminator d"
    using a by (simp add: dot_def)
  then show "sig_heading s" unfolding sig_heading_def by blast
next
  assume "sig_heading s"
  then obtain u c d v where "s = u @ ch CHR ''#'' # c # d # v" "is_space c"
    "\<not> is_line_terminator d"
    unfolding sig_heading_def by blast
  then have "s = u @ [ch CHR ''#'', c, d] @ v
      \<and> lang headers (after None u) [ch CHR ''#'', c, d] v"
    by (simp add: lang_headers dot_def)
  then show "test headers s" unfolding test_iff by blast
qed

lemma test_lists: "test lists s = sig_bullet s"
proof
  assume "test lists s"
  then obtain u w t b c m where a: "s = u @ w @ t" "line_start u" "w = b # c # m"
    "one_of ''-*+'' b" "is_space c" "m \<noteq> []" "list_all dot m"
    unfolding test_iff lang_lists at_bol_after by blast
  then obtain d m' where "m = d # m'" by (cases m) auto
  then have "s = u @ b # c # d # (m' @ t) \<and> line_start u
      \<and> (b = ch CHR ''-'' \<or> b = ch CHR ''*'' \<or> b = ch CHR ''+'')
      \<and> is_space c \<and> \<not> is_line_terminator d"
    using a by (simp add: dot_def one_of_bullets)
  then show "sig_bullet s" unfolding sig_bullet_def by blast
next
  assume "sig_bullet s"
  then obtain u b c d v where "s = u @ b # c # d # v" "line_start u"
    "b = ch CHR ''-'' \<or> b = ch CHR ''*'' \<or> b = ch CHR ''+''" "is_space c"
    "\<not> is_line_terminator d"
    unfolding sig_bullet_def by blast
  then have "s = u @ [b, c, d] @ v \<and> lang lists (after None u) [b, c, d] v"
    by (simp add: lang_lists dot_def one_of_bullets)
  then show "test lists s" unfolding test_iff by blast
qed

lemma test_numberedLists: "test numberedLists s = sig_ordered s"
proof
  assume "test numberedLists s"
  then obtain u w t ds c m where a: "s = u @ w @ t" "line_start u"
    "w = ds @ ch CHR ''.'' # c # m" "ds \<noteq> []" "list_all is_digit ds"
    "is_space c" "m \<noteq> []" "list_all dot m"
    unfolding test_iff lang_numberedLists at_bol_after by blast
  then obtain d m' where "m = d # m'" by (cases m) auto
  then have "s = u @ ds @ ch CHR ''.'' # c # d # (m' @ t) \<and> line_start u
      \<and> ds \<noteq> [] \<and> list_all is_digit ds \<and> is_space c \<and> \<not> is_line_terminator d"
    using a by (simp add: dot_def)
  then show "sig_ordered s" unfolding sig_ordered_def by blast
next
  assume "sig_ordered s"
  then obtain u ds c d v where "s = u @ ds @ ch CHR ''.'' # c # d # v" "line_start u"
    "ds \<noteq> []" "list_all is_digit ds" "is_space c" "\<not> is_line_terminator d"
    unfolding sig_ordered_def by blast
  note b = this
  have "\<exists>ds' c' m. ds @ [ch CHR ''.'', c, d] = ds' @ ch CHR ''.'' # c' # m \<and> ds' \<noteq> []
        \<and> list_all is_digit ds' \<and> is_space c' \<and> m \<noteq> [] \<and> list_all dot m"
    by (rule exI[of _ ds], rule exI[of _ c], rule exI[of _ "[d]"])
       (use b in \<open>simp add: dot_def\<close>)
  then have "s = u @ (ds @ [ch CHR ''.'', c, d]) @ v
      \<and> lang numberedLists (after None u) (ds @ [ch CHR ''.'', c, d]) v"
    using b unfolding lang_numberedLists by simp
  then show "test numberedLists s" unfolding test_iff by blast
qed

lemma test_codeBlocks: "test codeBlocks s = sig_fence s"
proof
  assume "test codeBlocks s"
  then obtain u w t m where "s = u @ w @ t"
    "w = [ch (CHR 0x60), ch (CHR 0x60), ch (CHR 0x60)] @ m
           @ [ch (CHR 0x60), ch (CHR 0x60), ch (CHR 0x60)]"
    unfolding test_iff lang_codeBlocks by blast
  then have "s = u @ [ch (CHR 0x60), ch (CHR 0x60), ch (CHR 0x60)] @ m
                    @ [ch (CHR 0x60), ch (CHR 0x60), ch (CHR 0x60)] @ t"
    by simp
  then show "sig_fence s" unfolding sig_fence_def by blast
next
  assume "sig_fence s"
  then obtain u m v where "s = u @ [ch (CHR 0x60), ch (CHR 0x60), ch (CHR 0x60)] @ m
                    @ [ch (CHR 0x60), ch (CHR 0x60), ch (CHR 0x60)] @ v"
    unfolding sig_fence_def by blast
  then have "s = u @ ([ch (CHR 0x60), ch (CHR 0x60), ch (CHR 0x60)] @ m
                    @ [ch (CHR 0x60), ch (CHR 0x60), ch (CHR 0x60)]) @ v
     \<and> lang codeBlocks (after None u) ([ch (CHR 0x60), ch (CHR 0x60), ch (CHR 0x60)] @ m
                    @ [ch (CHR 0x60), ch (CHR 0x60), ch (CHR 0x60)]) v"
    unfolding lang_codeBlocks by simp
  then show "test codeBlocks s" unfolding test_iff by blast
qed

lemma test_inlineCode: "test inlineCode s = sig_inline s"
proof
  assume "test inlineCode s"
  then obtain u w t m where "s = u @ w @ t" "w = ch (CHR 0x60) # m @ [ch (CHR 0x60)]"
    "m \<noteq> []" "ch (CHR 0x60) \<notin> set m"
    unfolding test_iff lang_inlineCode by blast
  then have "s = u @ ch (CHR 0x60) # m @ ch (CHR 0x60) # t \<and> m \<noteq> []
        \<and> ch (CHR 0x60) \<notin> set m"
    by simp
  then show "sig_inline s" unfolding sig_inline_def by blast
next
  assume "sig_inline s"
  then obtain u m v where "s = u @ ch (CHR 0x60) # m @ ch (CHR 0x60) # v" "m \<noteq> []"
    "ch (CHR 0x60) \<notin> set m"
    unfolding sig_inline_def by blast
  then have "s = u @ (ch (CHR 0x60) # m @ [ch (CHR 0x60)]) @ v
     \<and> lang inlineCode (after None u) (ch (CHR 0x60) # m @ [ch (CHR 0x60)]) v"
    unfolding lang_inlineCode by simp
  then show "test inlineCode s" unfolding test_iff by blast
qed

lemma test_emphasis: "test emphasis s = sig_emphasis s"
proof
  assume "test emphasis s"
  then obtain u w t where "s = u @ w @ t"
    "w = [ch CHR ''*'', ch CHR ''*''] \<or> w = [ch CHR ''*'']
      \<or> w = [ch CHR ''_'', ch CHR ''_''] \<or> w = [ch CHR ''_'']"
    unfolding test_iff lang_emphasis by blast
  then show "sig_emphasis s" unfolding sig_emphasis_def by auto
next
  assume "sig_emphasis s"
  then obtain x where x: "x \<in> set s" "x = ch CHR ''*'' \<or> x = ch CHR ''_''"
    unfolding sig_emphasis_def by blast
  then obtain u t where "s = u @ x # t" by (meson split_list)
  then have "s = u @ [x] @ t \<and> lang emphasis (after None u) [x] t"
    using x(2) unfolding lang_emphasis by auto
  then show "test emphasis s" unfolding test_iff by blast
qed

lemma test_links: "test links s = sig_link s"
proof
  assume "test links s"
  then obtain u w t a b where "s = u @ w @ t"
    "w = ch CHR ''['' # a @ ch CHR '']'' # ch CHR ''('' # b @ [ch CHR '')'']"
    "a \<noteq> []" "b \<noteq> []" "list_all dot a" "list_all dot b"
    unfolding test_iff lang_links by blast
  then have "s = u @ ch CHR ''['' # a @ ch CHR '']'' # ch CHR ''('' # b @ ch CHR '')'' # t
        \<and> a \<noteq> [] \<and> b \<noteq> []
        \<and> list_all (\<lambda>c. \<not> is_line_terminator c) a \<and> list_all (\<lambda>c. \<not> is_line_terminator c) b"
    by (simp add: dot_eq)
  then show "sig_link s" unfolding sig_link_def by blast
next
  assume "sig_link s"
  then obtain u a b v where
    "s = u @ ch CHR ''['' # a @ ch CHR '']'' # ch CHR ''('' # b @ ch CHR '')'' # v"
    "a \<noteq> []" "b \<noteq> []" "list_all (\<lambda>c. \<not> is_line_terminator c) a"
    "list_all (\<lambda>c. \<not> is_line_terminator c) b"
    unfolding sig_link_def by blast
  note f = this
  have "\<exists>a' b'. ch CHR ''['' # a @ ch CHR '']'' # ch CHR ''('' # b @ [ch CHR '')'']
          = ch CHR ''['' # a' @ ch CHR '']'' # ch CHR ''('' # b' @ [ch CHR '')'']
        \<and> a' \<noteq> [] \<and> b' \<noteq> [] \<and> list_all dot a' \<and> list_all dot b'"
    by (rule exI[of _ a], rule exI[of _ b]) (use f in \<open>simp add: dot_eq\<close>)
  then have "s = u @ (ch CHR ''['' # a @ ch CHR '']'' # ch CHR ''('' # b @ [ch CHR '')'']) @ v
     \<and> lang links (after None u)
          (ch CHR ''['' # a @ ch CHR '']'' # ch CHR ''('' # b @ [ch CHR '')'']) v"
    using f unfolding lang_links by simp
  then show "test links s" unfolding test_iff by blast
qed

lemma test_blockquotes: "test blockquotes s = sig_quote s"
proof
  assume "test blockquotes s"
  then obtain u w t c m where a: "s = u @ w @ t" "line_start u" "w = ch CHR ''>'' # c # m"
    "is_space c" "m \<noteq> []" "list_all dot m"
    unfolding test_iff lang_blockquotes at_bol_after by blast
  then obtain d m' where "m = d # m'" by (cases m) auto
  then have "s = u @ ch CHR ''>'' # c # d # (m' @ t) \<and> line_start u
      \<and> is_space c \<and> \<not> is_line_terminator d"
    using a by (simp add: dot_def)
  then show "sig_quote s" unfolding sig_quote_def by blast
next
  assume "sig_quote s"
  then obtain u c d v where "s = u @ ch CHR ''>'' # c # d # v" "line_start u" "is_space c"
    "\<not> is_line_terminator d"
    unfolding sig_quote_def by blast
  then have "s = u @ [ch CHR ''>'', c, d] @ v
      \<and> lang blockquotes (after None u) [ch CHR ''>'', c, d] v"
    by (simp add: lang_blockquotes dot_def)
  then show "test blockquotes s" unfolding test_iff by blast
qed

lemma test_tables: "test tables s = sig_table s"
proof
  assume "test tables s"
  then obtain u w t m where "s = u @ w @ t" "w = ch CHR ''|'' # m @ [ch CHR ''|'']"
    "m \<noteq> []" "list_all dot m"
    unfolding test_iff lang_tables by blast
  then have "s = u @ ch CHR ''|'' # m @ ch CHR ''|'' # t \<and> m \<noteq> []
        \<and> list_all (\<lambda>c. \<not> is_line_terminator c) m"
    by (simp add: dot_eq)
  then show "sig_table s" unfolding sig_table_def by blast
next
  assume "sig_table s"
  then obtain u m v where "s = u @ ch CHR ''|'' # m @ ch CHR ''|'' # v" "m \<noteq> []"
    "list_all (\<lambda>c. \<not> is_line_terminator c) m"
    unfolding sig_table_def by blast
  then have "s = u @ (ch CHR ''|'' # m @ [ch CHR ''|'']) @ v
     \<and> lang tables (after None u) (ch CHR ''|'' # m @ [ch CHR ''|'']) v"
    unfolding lang_tables by (simp add: dot_eq)
  then show "test tables s" unfolding test_iff by blast
qed

lemma test_horizontalRules: "test horizontalRules s = sig_rule s"
  unfolding test_iff lang_horizontalRules at_bol_after sig_rule_def one_of_rules
  by blast

lemma length_filter_map: "length (filter P xs) = length (filter (\<lambda>b. b) (map P xs))"
  by (induction xs) auto

lemma tests_are_signals:
  "map (\<lambda>(name, pattern). test pattern s) markdownPatterns = map (\<lambda>g. g s) signals"
  by (simp add: markdownPatterns_def signals_def test_headers test_lists test_numberedLists
        test_codeBlocks test_inlineCode test_emphasis test_links test_blockquotes test_tables
        test_horizontalRules)

lemma matched_count:
  "length (matchedPatterns s) = length (filter (\<lambda>g. g s) signals)"
proof -
  have "length (matchedPatterns s)
      = length (filter (\<lambda>b. b) (map (\<lambda>(name, pattern). test pattern s) markdownPatterns))"
    unfolding matchedPatterns_def by (rule length_filter_map)
  also have "\<dots> = length (filter (\<lambda>b. b) (map (\<lambda>g. g s) signals))"
    by (simp only: tests_are_signals)
  also have "\<dots> = length (filter (\<lambda>g. g s) signals)"
    by (rule length_filter_map[symmetric])
  finally show ?thesis .
qed

lemma classifier_rule:
  "isMarkdownContent s \<longleftrightarrow>
     (2 \<le> length (filter (\<lambda>g. g s) signals) \<or> sig_heading s \<or> sig_bullet s \<or> sig_emphasis s)"
  by (simp add: isMarkdownContent_def hasImportantPatterns_def matched_count test_headers
        test_lists test_emphasis)

lemma signal_needs_ink:
  assumes "g \<in> set signals" "g s"
  shows "\<exists>c \<in> set s. \<not> is_space c"
proof -
  have h: "\<And>x. x \<in> set s \<Longrightarrow> \<not> is_space x \<Longrightarrow> ?thesis" by blast
  consider "sig_heading s" | "sig_bullet s" | "sig_ordered s" | "sig_fence s" | "sig_inline s"
    | "sig_emphasis s" | "sig_link s" | "sig_quote s" | "sig_table s" | "sig_rule s"
    using assms by (auto simp: signals_def)
  then show ?thesis
  proof cases
    case 1
    then have "ch CHR ''#'' \<in> set s" by (auto simp: sig_heading_def)
    then show ?thesis by (rule h) (simp add: is_space_def)
  next
    case 2
    then obtain u b c d v where "s = u @ b # c # d # v"
      "b = ch CHR ''-'' \<or> b = ch CHR ''*'' \<or> b = ch CHR ''+''"
      unfolding sig_bullet_def by blast
    then have "b \<in> set s" "b = ch CHR ''-'' \<or> b = ch CHR ''*'' \<or> b = ch CHR ''+''"
      by simp_all
    then have "b \<in> set s" "\<not> is_space b" by (auto simp: is_space_def)
    then show ?thesis by blast
  next
    case 3
    then have "ch CHR ''.'' \<in> set s" by (auto simp: sig_ordered_def)
    then show ?thesis by (rule h) (simp add: is_space_def)
  next
    case 4
    then have "ch (CHR 0x60) \<in> set s" by (auto simp: sig_fence_def)
    then show ?thesis by (rule h) (simp add: is_space_def)
  next
    case 5
    then have "ch (CHR 0x60) \<in> set s" by (auto simp: sig_inline_def)
    then show ?thesis by (rule h) (simp add: is_space_def)
  next
    case 6
    then obtain b where "b \<in> set s" "b = ch CHR ''*'' \<or> b = ch CHR ''_''"
      unfolding sig_emphasis_def by blast
    then have "b \<in> set s" "\<not> is_space b" by (auto simp: is_space_def)
    then show ?thesis by blast
  next
    case 7
    then have "ch CHR ''['' \<in> set s" by (auto simp: sig_link_def)
    then show ?thesis by (rule h) (simp add: is_space_def)
  next
    case 8
    then have "ch CHR ''>'' \<in> set s" by (auto simp: sig_quote_def)
    then show ?thesis by (rule h) (simp add: is_space_def)
  next
    case 9
    then have "ch CHR ''|'' \<in> set s" by (auto simp: sig_table_def)
    then show ?thesis by (rule h) (simp add: is_space_def)
  next
    case 10
    then obtain u m v where m: "s = u @ m @ v" "3 \<le> length m"
      "list_all (\<lambda>c. c = ch CHR ''-'' \<or> c = ch CHR ''*'' \<or> c = ch CHR ''_'') m"
      unfolding sig_rule_def by blast
    then obtain b m' where "m = b # m'" by (cases m) auto
    then have "b \<in> set s" "b = ch CHR ''-'' \<or> b = ch CHR ''*'' \<or> b = ch CHR ''_''"
      using m by simp_all
    then have "b \<in> set s" "\<not> is_space b" by (auto simp: is_space_def)
    then show ?thesis by blast
  qed
qed

lemma blank_matches_nothing:
  assumes "list_all is_space s"
  shows "filter (\<lambda>g. g s) signals = []"
  using assms signal_needs_ink[of _ s] by (auto simp: filter_empty_conv list_all_iff)


section \<open>Classifier\<close>

lemmas spec_eval =
  spec_classify_def spec_signals_def spec_heading_def spec_bullet_def spec_ordered_def
  spec_fence_def spec_inline_def spec_emphasis_def spec_link_def spec_quote_def spec_table_def
  spec_rule_def test_def lit_def dot_def one_of_def is_space_def is_line_terminator_def
  is_digit_def js_def

lemma midline_heading: "sig_heading (js ''a # b'')"
  unfolding sig_heading_def
  by (rule exI[of _ "js ''a ''"], rule exI[of _ "ch CHR '' ''"], rule exI[of _ "ch CHR ''b''"],
      rule exI[of _ "[]"])
     (simp add: js_def is_space_def is_line_terminator_def)

lemma only_table: "map fst (matchedPatterns (js ''|a|'')) = [''tables'']"
  by (simp add: classifier_eval)

text \<open>
  C1 (as the code has it). \<open>isMarkdownContent\<close> returns true exactly when at least two
  of the ten signals match or one of heading, bullet list, emphasis matches, where each
  pattern of \<open>markdownPatterns\<close> matches exactly when its signal holds. The heading
  signal is not anchored: it holds when \<open>#\<close>, a whitespace code unit and a code unit
  that is not a line terminator follow each other anywhere in the text.
\<close>

theorem classify_rule:
  "(isMarkdownContent s \<longleftrightarrow>
      (2 \<le> length (filter (\<lambda>g. g s) signals)
       \<or> sig_heading s \<or> sig_bullet s \<or> sig_emphasis s))
   \<and> map (\<lambda>(name, pattern). test pattern s) markdownPatterns = map (\<lambda>g. g s) signals
   \<and> length (matchedPatterns s) = length (filter (\<lambda>g. g s) signals)"
  using classifier_rule tests_are_signals matched_count by blast

theorem classify_rule_witness:
  "sig_heading (js ''a # b'') \<and> \<not> line_start (js ''a '') \<and> isMarkdownContent (js ''a # b'')"
proof -
  have "\<not> line_start (js ''a '')"
    by (simp add: line_start_def js_def is_line_terminator_def)
  then show ?thesis
    using midline_heading classify_rule [of "js ''a # b''"] by blast
qed

text \<open>
  The claim as written fails on \<open>a # b\<close>: no line begins with \<open>#\<close> and none of the
  signals as the specification words them matches, yet the code classifies the text as
  Markdown, because \<open>/#\s.+/m\<close> carries no \<open>^\<close>.
\<close>

theorem midline_heading_counterexample:
  "isMarkdownContent (js ''a # b'')
   \<and> \<not> spec_classify False (js ''a # b'')
   \<and> \<not> spec_classify True (js ''a # b'')"
proof -
  have "isMarkdownContent (js ''a # b'')" by (simp add: classifier_eval)
  moreover have "\<not> spec_classify False (js ''a # b'')" by (simp add: spec_eval)
  moreover have "\<not> spec_classify True (js ''a # b'')" by (simp add: spec_eval)
  ultimately show ?thesis by blast
qed

text \<open>
  C7 (as the code has it). \<open>isMarkdownContent\<close> returns false only when at most one
  signal matches and none of heading, bullet list, emphasis does; every text with two
  matching signals, or with one of those three, is classified as Markdown.
\<close>

theorem classify_false_only:
  "(\<not> isMarkdownContent s \<longrightarrow>
      length (filter (\<lambda>g. g s) signals) \<le> 1
      \<and> \<not> sig_heading s \<and> \<not> sig_bullet s \<and> \<not> sig_emphasis s)
   \<and> (2 \<le> length (filter (\<lambda>g. g s) signals)
        \<or> sig_heading s \<or> sig_bullet s \<or> sig_emphasis s
      \<longrightarrow> isMarkdownContent s)"
  using classifier_rule[of s] by auto

theorem classify_false_only_witness:
  "\<not> isMarkdownContent (js ''|a|'')
   \<and> length (filter (\<lambda>g. g (js ''|a|'')) signals) \<le> 1
   \<and> sig_heading (js ''a # b'') \<and> isMarkdownContent (js ''a # b'')"
proof -
  have "\<not> isMarkdownContent (js ''|a|'')" by (simp add: classifier_eval)
  then show ?thesis
    using classify_false_only [of "js ''|a|''"] classify_false_only [of "js ''a # b''"]
      midline_heading by blast
qed

text \<open>
  The claim as written fails on \<open>|a|\<close>: exactly one category matches (the table
  pattern) and the result is false.
\<close>

theorem one_category_counterexample:
  "map fst (matchedPatterns (js ''|a|'')) = [''tables'']
   \<and> length (matchedPatterns (js ''|a|'')) = 1
   \<and> \<not> isMarkdownContent (js ''|a|'')"
proof -
  have "length (matchedPatterns (js ''|a|'')) = 1"
    using arg_cong[OF only_table, of length] by simp
  moreover have "\<not> isMarkdownContent (js ''|a|'')" by (simp add: classifier_eval)
  ultimately show ?thesis using only_table by blast
qed


text \<open>
  C8 (as the code has it). A text on which exactly one of the ten patterns of
  \<open>markdownPatterns\<close> matches, that pattern being none of headers, lists, emphasis,
  is not classified as Markdown. The signals are those of the code: the heading signal
  is the one without anchor.
\<close>

theorem single_unimportant_signal_rejected:
  assumes "length (filter (\<lambda>g. g s) signals) = 1"
    and "\<not> sig_heading s" and "\<not> sig_bullet s" and "\<not> sig_emphasis s"
  shows "\<not> isMarkdownContent s"
  using assms classifier_rule[of s] by simp

theorem single_unimportant_signal_rejected_witness:
  "length (filter (\<lambda>g. g (js ''|a|'')) signals) = 1
   \<and> sig_table (js ''|a|'')
   \<and> \<not> sig_heading (js ''|a|'') \<and> \<not> sig_bullet (js ''|a|'') \<and> \<not> sig_emphasis (js ''|a|'')
   \<and> \<not> isMarkdownContent (js ''|a|'')"
proof -
  have "length (matchedPatterns (js ''|a|'')) = 1"
    using arg_cong[OF only_table, of length] by simp
  then have n: "length (filter (\<lambda>g. g (js ''|a|'')) signals) = 1"
    by (simp only: matched_count)
  have h: "\<not> sig_heading (js ''|a|'')"
    unfolding test_headers[symmetric] by (simp add: classifier_eval)
  have b: "\<not> sig_bullet (js ''|a|'')"
    unfolding test_lists[symmetric] by (simp add: classifier_eval)
  have e: "\<not> sig_emphasis (js ''|a|'')"
    unfolding test_emphasis[symmetric] by (simp add: classifier_eval)
  have t: "sig_table (js ''|a|'')"
    unfolding test_tables[symmetric] by (simp add: classifier_eval)
  show ?thesis
    using n h b e t single_unimportant_signal_rejected [OF n h b e] by blast
qed


text \<open>
  The claim as written fails on \<open>> q # r\<close>: of the signals as the specification words
  them exactly one matches, the blockquote, which is not an important one; the code
  classifies the text as Markdown, because its heading pattern matches \<open># r\<close> in the
  middle of the line.
\<close>

theorem lone_blockquote_counterexample:
  "map (\<lambda>r. test r (js ''> q # r'')) spec_signals
     = [False, False, False, False, False, False, False, True, False, False]
   \<and> length (filter (\<lambda>r. test r (js ''> q # r'')) spec_signals) = 1
   \<and> test spec_quote (js ''> q # r'')
   \<and> \<not> spec_classify False (js ''> q # r'')
   \<and> \<not> spec_classify True (js ''> q # r'')
   \<and> isMarkdownContent (js ''> q # r'')"
proof -
  have m: "map (\<lambda>r. test r (js ''> q # r'')) spec_signals
     = [False, False, False, False, False, False, False, True, False, False]"
    by (simp add: spec_eval)
  have l: "length (filter (\<lambda>r. test r (js ''> q # r'')) spec_signals) = 1"
    by (simp add: spec_eval)
  have q: "test spec_quote (js ''> q # r'')" by (simp add: spec_eval)
  have f: "\<not> spec_classify False (js ''> q # r'')" by (simp add: spec_eval)
  have t: "\<not> spec_classify True (js ''> q # r'')" by (simp add: spec_eval)
  have c: "isMarkdownContent (js ''> q # r'')" by (simp add: classifier_eval)
  show ?thesis using m l q f t c by blast
qed


text \<open>
  C9 (as the code has it). A text on which none of the ten patterns of
  \<open>markdownPatterns\<close> matches is not classified as Markdown; the empty string is not,
  and on a text made of whitespace only no pattern matches and the result is false.
  The patterns are those of the code: the heading pattern is the one without anchor.
\<close>

theorem no_signal_rejected:
  "(filter (\<lambda>g. g s) signals = [] \<longrightarrow> \<not> isMarkdownContent s)
   \<and> (matchedPatterns s = [] \<longrightarrow> \<not> isMarkdownContent s)
   \<and> \<not> isMarkdownContent []
   \<and> (list_all is_space s \<longrightarrow> matchedPatterns s = [] \<and> \<not> isMarkdownContent s)"
proof -
  have none: "\<not> isMarkdownContent s" if "filter (\<lambda>g. g s) signals = []" for s
  proof -
    have "\<forall>g \<in> set signals. \<not> g s"
      using that by (simp only: filter_empty_conv)
    moreover have "sig_heading \<in> set signals" "sig_bullet \<in> set signals"
      "sig_emphasis \<in> set signals"
      by (simp_all add: signals_def)
    ultimately have "\<not> sig_heading s \<and> \<not> sig_bullet s \<and> \<not> sig_emphasis s"
      by blast
    then show ?thesis using that by (simp add: classifier_rule)
  qed
  have m: "filter (\<lambda>g. g s) signals = []" if "matchedPatterns s = []" for s
    using that matched_count[of s] by simp
  have blank: "matchedPatterns s = [] \<and> \<not> isMarkdownContent s" if "list_all is_space s" for s
  proof -
    have "filter (\<lambda>g. g s) signals = []"
      using that by (rule blank_matches_nothing)
    then show ?thesis using none matched_count[of s] by simp
  qed
  have "\<not> isMarkdownContent []" using blank[of "[]"] by simp
  then show ?thesis using none m blank by blast
qed

theorem no_signal_rejected_witness:
  "list_all is_space (js ''  '' @ [nl] @ js '' '')
   \<and> matchedPatterns (js ''  '' @ [nl] @ js '' '') = []
   \<and> \<not> isMarkdownContent (js ''  '' @ [nl] @ js '' '')
   \<and> matchedPatterns (js ''plain text'') = []
   \<and> \<not> isMarkdownContent (js ''plain text'')"
proof -
  have a: "list_all is_space (js ''  '' @ [nl] @ js '' '')"
    by (simp add: js_def nl_def is_space_def)
  have b: "matchedPatterns (js ''plain text'') = []"
    by (simp add: classifier_eval)
  show ?thesis
    using a b no_signal_rejected [of "js ''  '' @ [nl] @ js '' ''"]
      no_signal_rejected [of "js ''plain text''"] by blast
qed


text \<open>
  The claim as written fails on \<open>x # y\<close>: none of the ten patterns as the specification
  lists them matches, and the code classifies the text as Markdown.
\<close>

theorem no_listed_pattern_counterexample:
  "map (\<lambda>r. test r (js ''x # y'')) spec_signals
     = [False, False, False, False, False, False, False, False, False, False]
   \<and> filter (\<lambda>r. test r (js ''x # y'')) spec_signals = []
   \<and> isMarkdownContent (js ''x # y'')"
proof -
  have m: "map (\<lambda>r. test r (js ''x # y'')) spec_signals
     = [False, False, False, False, False, False, False, False, False, False]"
    by (simp add: spec_eval)
  have l: "filter (\<lambda>r. test r (js ''x # y'')) spec_signals = []"
    by (simp add: spec_eval)
  have c: "isMarkdownContent (js ''x # y'')" by (simp add: classifier_eval)
  show ?thesis using m l c by blast
qed


end
